theory Spec2Isabelle
  imports Main "HOL-Library.Sublist"
begin

section \<open>Go strings and the library functions the program calls\<close>

text \<open>
  A Go string is a sequence of bytes, so it is a \<open>string\<close> (a \<open>char list\<close>) here.
  The program calls \<^verbatim>\<open>strings.ToLower\<close>, \<^verbatim>\<open>strings.TrimSpace\<close>,
  \<^verbatim>\<open>strings.EqualFold\<close>, \<^verbatim>\<open>strings.TrimPrefix\<close> and \<^verbatim>\<open>strings.Split\<close>.
  They belong to the Go standard library, not to this repository, and are modelled from
  their documented behaviour on ASCII bytes: case mapping touches \<open>A\<close> to \<open>Z\<close> only, and
  white space is the six ASCII white-space bytes. Bytes above 127 are left alone (Go would
  decode them as UTF-8 and apply Unicode case folding and Unicode white space).
\<close>

definition isSpace :: "char \<Rightarrow> bool" where
  "isSpace c = (c = CHR '' '' \<or> c = CHR 0x09 \<or> c = CHR 0x0A \<or> c = CHR 0x0B
                \<or> c = CHR 0x0C \<or> c = CHR 0x0D)"

definition toLowerByte :: "char \<Rightarrow> char" where
  "toLowerByte c =
     (let n = (of_char c :: nat) in if 65 \<le> n \<and> n \<le> 90 then char_of (n + 32) else c)"

definition ToLower :: "string \<Rightarrow> string" where
  "ToLower s = map toLowerByte s"

definition TrimSpace :: "string \<Rightarrow> string" where
  "TrimSpace s = rev (dropWhile isSpace (rev (dropWhile isSpace s)))"

definition EqualFold :: "string \<Rightarrow> string \<Rightarrow> bool" where
  "EqualFold s t = (ToLower s = ToLower t)"

definition TrimPrefix :: "string \<Rightarrow> string \<Rightarrow> string" where
  "TrimPrefix s p = (if prefix p s then drop (length p) s else s)"

text \<open>
  \<^verbatim>\<open>strings.Split(s, sep)\<close> for a separator of one byte: the pieces of \<open>s\<close> between
  the separators, one more piece than there are separators, so the empty string splits
  into one empty piece.
\<close>

fun Split :: "string \<Rightarrow> char \<Rightarrow> string list" where
  "Split [] sep = [[]]"
| "Split (c # cs) sep =
     (if c = sep then [] # Split cs sep
      else (case Split cs sep of [] \<Rightarrow> [[c]] | w # ws \<Rightarrow> (c # w) # ws))"

section \<open>Errors, fatal exits and panics\<close>

text \<open>
  The values of Go's \<^verbatim>\<open>error\<close> that the program builds or passes on. \<open>ErrFailed\<close> and
  \<open>ErrNotProcessed\<close> are the two package variables; the next two are the
  \<^verbatim>\<open>fmt.Errorf\<close> messages of the row mapper, with the quoted text as argument; the
  two after them carry the status code and the body of an unexpected response;
  \<open>ErrLibrary\<close> is an error handed back by a library call (JSON, HTTP, the spreadsheet
  library) and passed on unchanged.
\<close>

datatype error =
    ErrFailed
  | ErrNotProcessed
  | ErrMissingColumn string
  | ErrUnsupportedTerritory string
  | ErrUnexpectedStatusImporting int string
  | ErrUnexpectedStatusGetting int string
  | ErrLibrary string

datatype panic = IndexOutOfRange | NilDereference

text \<open>What \<^verbatim>\<open>log.Fatalln\<close> and \<^verbatim>\<open>log.Fatalf\<close> are called with in \<^verbatim>\<open>main\<close>.\<close>

datatype fatal =
    FatalEmptyFile
  | FatalErr error
  | FatalGrossMass string
  | FatalNetMass string
  | FatalProcessing
  | FatalRowNotFound string

datatype abort = Fatal fatal | Panic panic

datatype outcome = Done | Abort abort

definition andThen :: "abort + 'a \<Rightarrow> ('a \<Rightarrow> abort + 'b) \<Rightarrow> abort + 'b" where
  "andThen r f = (case r of Inl a \<Rightarrow> Inl a | Inr x \<Rightarrow> f x)"

definition orPanic :: "panic + 'a \<Rightarrow> abort + 'a" where
  "orPanic r = (case r of Inl p \<Rightarrow> Inl (Panic p) | Inr x \<Rightarrow> Inr x)"

section \<open>The row mapper\<close>

definition customsTerritoryEU :: string where
  "customsTerritoryEU = ''eu''"

definition customsTerritoryNO :: string where
  "customsTerritoryNO = ''no''"

definition allowedCustomsTerritories :: "string list" where
  "allowedCustomsTerritories = [customsTerritoryEU, customsTerritoryNO]"

text \<open>
  \<^verbatim>\<open>getColumnIndex\<close> ranges over the row with the index \<open>i\<close> and returns a pointer to the
  first index whose trimmed cell equals the name under case folding, or nil.
\<close>

fun getColumnIndex_loop :: "nat \<Rightarrow> string list \<Rightarrow> string \<Rightarrow> nat option" where
  "getColumnIndex_loop i [] name = None"
| "getColumnIndex_loop i (rowName # rest) name =
     (if EqualFold name (TrimSpace rowName) then Some i
      else getColumnIndex_loop (Suc i) rest name)"

definition getColumnIndex :: "string list \<Rightarrow> string \<Rightarrow> nat option" where
  "getColumnIndex row name = getColumnIndex_loop 0 row name"

definition getMandatoryColumnIndex :: "string list \<Rightarrow> string \<Rightarrow> error + nat" where
  "getMandatoryColumnIndex row name =
     (case getColumnIndex row name of
        None \<Rightarrow> Inl (ErrMissingColumn name)
      | Some index \<Rightarrow> Inr index)"

text \<open>Indexing a Go slice out of range panics; the three cell readers do not check.\<close>

definition getString :: "string list \<Rightarrow> nat option \<Rightarrow> panic + string" where
  "getString row i =
     (case i of
        None \<Rightarrow> Inr []
      | Some k \<Rightarrow> if k < length row then Inr (row ! k) else Inl IndexOutOfRange)"

definition getStringPtr :: "string list \<Rightarrow> nat option \<Rightarrow> panic + string option" where
  "getStringPtr row i =
     (case i of
        None \<Rightarrow> Inr None
      | Some k \<Rightarrow> if k < length row then Inr (Some (row ! k)) else Inl IndexOutOfRange)"

text \<open>
  A \<^verbatim>\<open>float64\<close> is kept as the text it was parsed from. Which texts
  \<^verbatim>\<open>strconv.ParseFloat\<close> accepts is the parameter \<open>parseOk\<close>; its error is a library
  error.
\<close>

type_synonym float_text = string

definition getFloatPtr ::
  "(string \<Rightarrow> bool) \<Rightarrow> string list \<Rightarrow> nat option \<Rightarrow> panic + (error + float_text option)" where
  "getFloatPtr parseOk row i =
     (case i of
        None \<Rightarrow> Inr (Inr None)
      | Some k \<Rightarrow>
          if k < length row then
            (let v = row ! k in
             if v = [] then Inr (Inr None)
             else if parseOk v then Inr (Inr (Some v))
             else Inr (Inl (ErrLibrary ''strconv.ParseFloat'')))
          else Inl IndexOutOfRange)"

fun prepareCustomsTerritories_loop :: "string list \<Rightarrow> string list \<Rightarrow> error + string list" where
  "prepareCustomsTerritories_loop result [] = Inr result"
| "prepareCustomsTerritories_loop result (territory # rest) =
     (let territory' = TrimSpace (ToLower territory) in
      if territory' \<notin> set allowedCustomsTerritories
      then Inl (ErrUnsupportedTerritory territory')
      else prepareCustomsTerritories_loop (result @ [territory']) rest)"

definition prepareCustomsTerritories :: "string \<Rightarrow> error + string list" where
  "prepareCustomsTerritories customsTerritories =
     prepareCustomsTerritories_loop [] (Split customsTerritories (CHR '',''))"

section \<open>The data model of the client\<close>

text \<open>
  The request structs as \<^verbatim>\<open>main\<close> fills them. A nil pointer is \<open>None\<close>.
\<close>

record ImportItemRequest =
  ID :: string
  Name :: string
  Description :: string
  CustomsTerritories :: "string list"
  Category :: "string option"
  Subcategory :: "string option"
  CountryOfOrigin :: "string option"
  GrossMass :: "float_text option"
  NetMass :: "float_text option"
  WeightUnit :: "string option"
  Model :: "string option"

record ImportRequest =
  ImportItems :: "ImportItemRequest list"

text \<open>
  The response structs, with the fields the program reads after decoding: the identifier
  of an item and its customs codes. The other decoded fields (name, description, status,
  attempts, time stamps) are never read.
\<close>

record CustomsCodesResponse =
  CustomsTerritory :: string
  Code :: string

record ImportItemResponse =
  ID :: string
  Tarics :: "CustomsCodesResponse list"

record ImportResponse =
  ImportItems :: "ImportItemResponse list"

definition ImportItemStatusProcessed :: string where
  "ImportItemStatusProcessed = ''processed''"

definition ImportItemStatusFailed :: string where
  "ImportItemStatusFailed = ''failed''"

text \<open>The method returns a pointer to the first entry of the territory, or nil.\<close>

fun getTaricByTerritory_loop ::
  "CustomsCodesResponse list \<Rightarrow> string \<Rightarrow> CustomsCodesResponse option" where
  "getTaricByTerritory_loop [] territory = None"
| "getTaricByTerritory_loop (taric # rest) territory =
     (if CustomsTerritory taric = territory then Some taric
      else getTaricByTerritory_loop rest territory)"

definition getTaricByTerritory :: "ImportItemResponse \<Rightarrow> string \<Rightarrow> CustomsCodesResponse option" where
  "getTaricByTerritory i territory = getTaricByTerritory_loop (Tarics i) territory"

section \<open>The outside world and the trace of effects\<close>

text \<open>
  What the server, the network and the libraries answer is a parameter of the model.
  \<^item> \<open>SubmitNotSent\<close>, \<open>StatusNotSent\<close>, \<open>FetchNotSent\<close>: \<^verbatim>\<open>json.Marshal\<close> or
    \<^verbatim>\<open>http.NewRequest\<close> failed, so no request left the program;
  \<^item> \<open>SubmitDoErr\<close>, \<open>StatusDoErr\<close>, \<open>FetchDoErr\<close>: \<^verbatim>\<open>http.DefaultClient.Do\<close> failed;
  \<^item> \<open>SubmitResponse code body location\<close>: a response with its status code, its body
    and its \<^verbatim>\<open>Location\<close> header;
  \<^item> \<open>StatusBodyErr\<close>: reading, closing or decoding the body of a status response failed;
  \<^item> \<open>StatusDoc d\<close>: the body decoded; \<open>d\<close> is the value of its \<^verbatim>\<open>status\<close> member, \<open>None\<close>
    when the document has none (or has \<^verbatim>\<open>null\<close>), in which case
    \<^verbatim>\<open>json.Unmarshal\<close> leaves the field of the target struct as it was;
  \<^item> \<open>FetchResponse code body decoded\<close>: a response with its status code and body, and
    what reading, closing and decoding the body gives when the code is 200.
  \<open>statusReply w n\<close> is the answer to the status request that follows \<open>n\<close> earlier ones.
\<close>

datatype submit_reply =
    SubmitNotSent string
  | SubmitDoErr string
  | SubmitResponse int string string

datatype status_reply =
    StatusNotSent string
  | StatusDoErr string
  | StatusBodyErr string
  | StatusDoc "string option"

datatype fetch_reply =
    FetchNotSent string
  | FetchDoErr string
  | FetchResponse int string "string + ImportResponse"

record world =
  parseFloatOk :: "string \<Rightarrow> bool"
  setSheetRowErr :: "nat \<Rightarrow> string option"
  submitReply :: submit_reply
  statusReply :: "nat \<Rightarrow> status_reply"
  fetchReply :: fetch_reply
  saveAsErr :: "string option"

text \<open>
  The effects of a run, in order. \<open>SetSheetRow n cells\<close> is the call
  \<^verbatim>\<open>file.SetSheetRow("Sheet1", "A<n>", &cells)\<close>, which writes the cells into row \<open>n\<close> of
  the spreadsheet held in memory; \<open>Post url authorization body\<close> and
  \<open>Get url authorization\<close> are the HTTP requests with their \<^verbatim>\<open>Authorization\<close> header;
  \<open>Sleep\<close> is \<^verbatim>\<open>time.Sleep(time.Second)\<close>; \<open>PrintStatus s\<close> prints the status document
  whose status is \<open>s\<close>; \<open>SaveAs path\<close> saves the spreadsheet. The progress dots and the
  closing message are left out.
\<close>

datatype event =
    SetSheetRow nat "string list"
  | Post string string ImportRequest
  | Get string string
  | Sleep
  | PrintStatus string
  | SaveAs string

fun isHttp :: "event \<Rightarrow> bool" where
  "isHttp (Post u a b) = True"
| "isHttp (Get u a) = True"
| "isHttp e = False"

fun isGet :: "event \<Rightarrow> bool" where
  "isGet (Get u a) = True"
| "isGet e = False"

fun isSetSheetRow :: "event \<Rightarrow> bool" where
  "isSetSheetRow (SetSheetRow n cells) = True"
| "isSetSheetRow e = False"

section \<open>The import client\<close>

text \<open>
  The repository holds two versions of the client. The model follows the one that sends
  the territories directly on each item, sends the header \<open>Bearer \<close> followed by the key
  as it was given, and prints the status document before the poll gives up. The tick
  budget is a Go \<^verbatim>\<open>int\<close>; the loop counter stays below it, so nothing wraps and both
  are \<open>int\<close> here.
\<close>

definition sendImportRequest ::
  "world \<Rightarrow> ImportRequest \<Rightarrow> string \<Rightarrow> string \<Rightarrow> (error + string) \<times> event list" where
  "sendImportRequest w request url apiKey =
     (let req = Post (url @ ''/api/v1/items/imports'') (''Bearer '' @ apiKey) request in
      case submitReply w of
        SubmitNotSent e \<Rightarrow> (Inl (ErrLibrary e), [])
      | SubmitDoErr e \<Rightarrow> (Inl (ErrLibrary e), [req])
      | SubmitResponse code body location \<Rightarrow>
          if 201 \<noteq> code then (Inl (ErrUnexpectedStatusImporting code body), [req])
          else (Inr location, [req]))"

definition getImportResponse ::
  "world \<Rightarrow> string \<Rightarrow> string \<Rightarrow> string \<Rightarrow> (error + ImportResponse) \<times> event list" where
  "getImportResponse w url importLocation apiKey =
     (let req = Get (url @ importLocation) (''Bearer '' @ apiKey) in
      case fetchReply w of
        FetchNotSent e \<Rightarrow> (Inl (ErrLibrary e), [])
      | FetchDoErr e \<Rightarrow> (Inl (ErrLibrary e), [req])
      | FetchResponse code body decoded \<Rightarrow>
          if 200 \<noteq> code then (Inl (ErrUnexpectedStatusGetting code body), [req])
          else (case decoded of
                  Inl e \<Rightarrow> (Inl (ErrLibrary e), [req])
                | Inr imp \<Rightarrow> (Inr imp, [req])))"

text \<open>
  The loop of \<^verbatim>\<open>waitForProcessing\<close>: \<open>i\<close> is the loop counter and \<open>status\<close> the
  \<^verbatim>\<open>Status\<close> field of the variable \<^verbatim>\<open>importStatusResponse\<close>, declared before the
  loop and decoded into at every iteration.
\<close>

function waitForProcessing_loop ::
  "world \<Rightarrow> string \<Rightarrow> string \<Rightarrow> string \<Rightarrow> int \<Rightarrow> int \<Rightarrow> string \<Rightarrow> error option \<times> event list" where
  "waitForProcessing_loop w url importLocation apiKey timeout i status =
     (if i < timeout then
        (let req = Get (url @ importLocation @ ''/status'') (''Bearer '' @ apiKey) in
         case statusReply w (nat i) of
           StatusNotSent e \<Rightarrow> (Some (ErrLibrary e), [])
         | StatusDoErr e \<Rightarrow> (Some (ErrLibrary e), [req])
         | StatusBodyErr e \<Rightarrow> (Some (ErrLibrary e), [req])
         | StatusDoc d \<Rightarrow>
             (let status' = (case d of None \<Rightarrow> status | Some s \<Rightarrow> s) in
              if status' = ImportItemStatusFailed then (Some ErrFailed, [req])
              else if status' = ImportItemStatusProcessed then (None, [req])
              else (case waitForProcessing_loop w url importLocation apiKey timeout (i + 1) status' of
                      (r, ev) \<Rightarrow> (r, req # Sleep # ev))))
      else (Some ErrNotProcessed, [PrintStatus status]))"
  by pat_completeness auto
termination
  by (relation "measure (\<lambda>(w, url, importLocation, apiKey, timeout, i, status). nat (timeout - i))") auto

definition waitForProcessing ::
  "world \<Rightarrow> string \<Rightarrow> string \<Rightarrow> string \<Rightarrow> int \<Rightarrow> error option \<times> event list" where
  "waitForProcessing w url importLocation apiKey timeout =
     waitForProcessing_loop w url importLocation apiKey timeout 0 []"

text \<open>
  The other version of the client nests the territories in an action of each item, does
  not print the status document, and builds the header of all three requests with
  \<^verbatim>\<open>prepareApiKey\<close>; its poll loop is otherwise the same.
\<close>

definition prepareApiKey :: "string \<Rightarrow> string" where
  "prepareApiKey apiKey = ''Bearer '' @ TrimPrefix apiKey ''Bearer ''"

section \<open>The orchestrator: \<^verbatim>\<open>main\<close> from the rows of the sheet on\<close>

text \<open>
  The model starts where \<^verbatim>\<open>main\<close> holds the rows that \<^verbatim>\<open>file.GetRows("Sheet1")\<close>
  returned; parsing the flags and opening the file come before and are not modelled.
  \<open>config\<close> holds the flag variables the rest of \<^verbatim>\<open>main\<close> reads. Of the two
  versions of \<^verbatim>\<open>main\<close> in the repository the model follows the one that passes the
  tick budget to the poll and appends the columns \<open>result EU\<close> and \<open>result NO\<close>; the
  other one names the columns differently and reuses result columns that exist, and has
  the same lookup, mapping and reconciliation code.
\<close>

record config =
  url :: string
  apiKey :: string
  outputPath :: string
  timeout :: int

text \<open>The column indices that \<^verbatim>\<open>main\<close> keeps in local variables.\<close>

record columns =
  iID :: nat
  iName :: nat
  iDescription :: nat
  iCustomsTerritories :: nat
  iCategory :: "nat option"
  iSubcategory :: "nat option"
  iCountryOfOrigin :: "nat option"
  iGrossMass :: "nat option"
  iNetMass :: "nat option"
  iWeightUnit :: "nat option"
  iModel :: "nat option"
  iResultEU :: nat
  iResultNO :: nat

text \<open>
  The four calls of \<^verbatim>\<open>getMandatoryColumnIndex\<close>, in the order of \<^verbatim>\<open>main\<close>; the first
  error ends the run.
\<close>

definition mandatoryColumns :: "string list \<Rightarrow> error + (nat \<times> nat \<times> nat \<times> nat)" where
  "mandatoryColumns headings =
     (case getMandatoryColumnIndex headings ''id'' of
        Inl err \<Rightarrow> Inl err
      | Inr i1 \<Rightarrow>
     (case getMandatoryColumnIndex headings ''name'' of
        Inl err \<Rightarrow> Inl err
      | Inr i2 \<Rightarrow>
     (case getMandatoryColumnIndex headings ''description'' of
        Inl err \<Rightarrow> Inl err
      | Inr i3 \<Rightarrow>
     (case getMandatoryColumnIndex headings ''customs territories'' of
        Inl err \<Rightarrow> Inl err
      | Inr i4 \<Rightarrow> Inr (i1, i2, i3, i4)))))"

text \<open>The optional columns, and the two result columns appended to the headings.\<close>

definition allColumns :: "string list \<Rightarrow> nat \<times> nat \<times> nat \<times> nat \<Rightarrow> columns" where
  "allColumns headings m =
     (case m of (i1, i2, i3, i4) \<Rightarrow>
        \<lparr> iID = i1, iName = i2, iDescription = i3, iCustomsTerritories = i4,
          iCategory = getColumnIndex headings ''category'',
          iSubcategory = getColumnIndex headings ''subcategory'',
          iCountryOfOrigin = getColumnIndex headings ''country of origin'',
          iGrossMass = getColumnIndex headings ''gross mass'',
          iNetMass = getColumnIndex headings ''net mass'',
          iWeightUnit = getColumnIndex headings ''weight unit'',
          iModel = getColumnIndex headings ''model'',
          iResultEU = length headings,
          iResultNO = length (headings @ [''result EU'']) \<rparr>)"

definition resultHeadings :: "string list \<Rightarrow> string list" where
  "resultHeadings headings = (headings @ [''result EU'']) @ [''result NO'']"

text \<open>The body of the loop over the data rows: one row becomes one request item.\<close>

definition mapRow :: "columns \<Rightarrow> (string \<Rightarrow> bool) \<Rightarrow> string list \<Rightarrow> abort + ImportItemRequest" where
  "mapRow c parseOk row =
     andThen (orPanic (getString row (Some (iID c)))) (\<lambda>id.
     andThen (orPanic (getString row (Some (iName c)))) (\<lambda>name.
     andThen (orPanic (getString row (Some (iDescription c)))) (\<lambda>description.
     andThen (orPanic (getString row (Some (iCustomsTerritories c)))) (\<lambda>customsTerritoriesRaw.
     andThen (case prepareCustomsTerritories customsTerritoriesRaw of
                Inl err \<Rightarrow> Inl (Fatal (FatalErr err))
              | Inr ts \<Rightarrow> Inr ts) (\<lambda>customsTerritories.
     andThen (orPanic (getStringPtr row (iCategory c))) (\<lambda>category.
     andThen (orPanic (getStringPtr row (iSubcategory c))) (\<lambda>subcategory.
     andThen (orPanic (getStringPtr row (iCountryOfOrigin c))) (\<lambda>countryOfOrigin.
     andThen (case getFloatPtr parseOk row (iGrossMass c) of
                Inl p \<Rightarrow> Inl (Panic p)
              | Inr (Inl err) \<Rightarrow> Inl (Fatal (FatalGrossMass id))
              | Inr (Inr v) \<Rightarrow> Inr v) (\<lambda>grossMass.
     andThen (case getFloatPtr parseOk row (iNetMass c) of
                Inl p \<Rightarrow> Inl (Panic p)
              | Inr (Inl err) \<Rightarrow> Inl (Fatal (FatalNetMass id))
              | Inr (Inr v) \<Rightarrow> Inr v) (\<lambda>netMass.
     andThen (orPanic (getStringPtr row (iWeightUnit c))) (\<lambda>weightUnit.
     andThen (orPanic (getStringPtr row (iModel c))) (\<lambda>model.
       Inr \<lparr> ImportItemRequest.ID = id, Name = name, Description = description,
             CustomsTerritories = customsTerritories,
             Category = category, Subcategory = subcategory,
             CountryOfOrigin = countryOfOrigin,
             GrossMass = grossMass, NetMass = netMass,
             WeightUnit = weightUnit, Model = model \<rparr>))))))))))))"

fun mapRows :: "columns \<Rightarrow> (string \<Rightarrow> bool) \<Rightarrow> string list list \<Rightarrow> abort + ImportItemRequest list" where
  "mapRows c parseOk [] = Inr []"
| "mapRows c parseOk (row # rest) =
     (case mapRow c parseOk row of
        Inl a \<Rightarrow> Inl a
      | Inr item \<Rightarrow>
          (case mapRows c parseOk rest of
             Inl a \<Rightarrow> Inl a
           | Inr items \<Rightarrow> Inr (item # items)))"

section \<open>The reconciler\<close>

text \<open>
  \<^verbatim>\<open>getRowByItemID\<close> ranges over all the rows it is given with the index \<open>i\<close> and reads
  \<^verbatim>\<open>row[idIndex]\<close> of each. It returns the index and the row of the first match, and a
  nil row (\<open>None\<close>) when there is none.
\<close>

fun getRowByItemID_loop ::
  "nat \<Rightarrow> string list list \<Rightarrow> nat \<Rightarrow> string \<Rightarrow> panic + (nat \<times> string list) option" where
  "getRowByItemID_loop i [] idIndex itemID = Inr None"
| "getRowByItemID_loop i (row # rest) idIndex itemID =
     (if idIndex < length row then
        (if itemID = row ! idIndex then Inr (Some (i, row))
         else getRowByItemID_loop (Suc i) rest idIndex itemID)
      else Inl IndexOutOfRange)"

definition getRowByItemID ::
  "string list list \<Rightarrow> nat \<Rightarrow> string \<Rightarrow> panic + (nat \<times> string list) option" where
  "getRowByItemID rows idIndex itemID = getRowByItemID_loop 0 rows idIndex itemID"

text \<open>The loop that appends empty cells until the row has \<open>n\<close> of them.\<close>

function padRow :: "string list \<Rightarrow> nat \<Rightarrow> string list" where
  "padRow row n = (if length row < n then padRow (row @ [[]]) n else row)"
  by pat_completeness auto
termination
  by (relation "measure (\<lambda>(row, n). n - length row)") auto

text \<open>An assignment \<^verbatim>\<open>row[i] = v\<close>; out of range it panics.\<close>

definition setIndex :: "string list \<Rightarrow> nat \<Rightarrow> string \<Rightarrow> panic + string list" where
  "setIndex row i v = (if i < length row then Inr (row[i := v]) else Inl IndexOutOfRange)"

text \<open>
  The body of the loop over the items of the response. \<open>headings\<close> is the heading row
  with the two result columns. Reading \<^verbatim>\<open>.Code\<close> through a nil pointer panics. The
  padded row is a slice of its own or shares cells with the original row only at indices
  the lookup never reads, so the rows are not changed by the loop.
\<close>

definition reconcileItem ::
  "world \<Rightarrow> columns \<Rightarrow> string list \<Rightarrow> string list list \<Rightarrow> ImportItemResponse
     \<Rightarrow> abort option \<times> event list" where
  "reconcileItem w c headings rows item =
     (case getRowByItemID rows (iID c) (ImportItemResponse.ID item) of
        Inl p \<Rightarrow> (Some (Panic p), [])
      | Inr None \<Rightarrow> (Some (Fatal (FatalRowNotFound (ImportItemResponse.ID item))), [])
      | Inr (Some (rowIndex0, row0)) \<Rightarrow>
          (let rowIndex = rowIndex0 + 1;
               row = padRow row0 (length headings + 1);
               taricEU = getTaricByTerritory item customsTerritoryEU;
               taricNO = getTaricByTerritory item customsTerritoryNO
           in case taricEU of
                None \<Rightarrow> (Some (Panic NilDereference), [])
              | Some tEU \<Rightarrow>
                  (case setIndex row (iResultEU c) (Code tEU) of
                     Inl p \<Rightarrow> (Some (Panic p), [])
                   | Inr row1 \<Rightarrow>
                       (case taricNO of
                          None \<Rightarrow> (Some (Panic NilDereference), [])
                        | Some tNO \<Rightarrow>
                            (case setIndex row1 (iResultNO c) (Code tNO) of
                               Inl p \<Rightarrow> (Some (Panic p), [])
                             | Inr row2 \<Rightarrow>
                                 (case setSheetRowErr w rowIndex of
                                    Some e \<Rightarrow> (Some (Fatal (FatalErr (ErrLibrary e))),
                                               [SetSheetRow rowIndex row2])
                                  | None \<Rightarrow> (None, [SetSheetRow rowIndex row2])))))))"

fun reconcile ::
  "world \<Rightarrow> columns \<Rightarrow> string list \<Rightarrow> string list list \<Rightarrow> ImportItemResponse list
     \<Rightarrow> abort option \<times> event list" where
  "reconcile w c headings rows [] = (None, [])"
| "reconcile w c headings rows (item # items) =
     (case reconcileItem w c headings rows item of
        (Some a, ev) \<Rightarrow> (Some a, ev)
      | (None, ev) \<Rightarrow>
          (case reconcile w c headings rows items of
             (r, ev') \<Rightarrow> (r, ev @ ev')))"

section \<open>The run\<close>

text \<open>
  \<^verbatim>\<open>main\<close> after the row mapping: submit, poll, fetch, reconcile, save. An error of
  the poll that is \<open>ErrFailed\<close> is logged as "error processing import", any other as it is.
\<close>

definition main_import ::
  "config \<Rightarrow> world \<Rightarrow> string list list \<Rightarrow> columns \<Rightarrow> string list \<Rightarrow> ImportRequest
     \<Rightarrow> outcome \<times> event list" where
  "main_import cfg w rows c headings imp =
     (case sendImportRequest w imp (url cfg) (apiKey cfg) of
        (Inl err, ev1) \<Rightarrow> (Abort (Fatal (FatalErr err)), ev1)
      | (Inr importLocation, ev1) \<Rightarrow>
     (case waitForProcessing w (url cfg) importLocation (apiKey cfg) (timeout cfg) of
        (Some err, ev2) \<Rightarrow>
          (Abort (Fatal (if err = ErrFailed then FatalProcessing else FatalErr err)), ev1 @ ev2)
      | (None, ev2) \<Rightarrow>
     (case getImportResponse w (url cfg) importLocation (apiKey cfg) of
        (Inl err, ev3) \<Rightarrow> (Abort (Fatal (FatalErr err)), ev1 @ ev2 @ ev3)
      | (Inr importResponse, ev3) \<Rightarrow>
     (case reconcile w c headings rows (ImportResponse.ImportItems importResponse) of
        (Some a, ev4) \<Rightarrow> (Abort a, ev1 @ ev2 @ ev3 @ ev4)
      | (None, ev4) \<Rightarrow>
     (case saveAsErr w of
        Some e \<Rightarrow> (Abort (Fatal (FatalErr (ErrLibrary e))),
                   ev1 @ ev2 @ ev3 @ ev4 @ [SaveAs (outputPath cfg)])
      | None \<Rightarrow> (Done, ev1 @ ev2 @ ev3 @ ev4 @ [SaveAs (outputPath cfg)]))))))"

text \<open>
  \<^verbatim>\<open>main\<close> from the rows on: the check for two rows, the columns, the heading row
  written back with the result columns, the mapping of the data rows, then the import.
\<close>

definition main :: "config \<Rightarrow> world \<Rightarrow> string list list \<Rightarrow> outcome \<times> event list" where
  "main cfg w rows =
     (if length rows < 2 then (Abort (Fatal FatalEmptyFile), [])
      else
        (let headings = rows ! 0 in
         case mandatoryColumns headings of
           Inl err \<Rightarrow> (Abort (Fatal (FatalErr err)), [])
         | Inr m \<Rightarrow>
             (let c = allColumns headings m;
                  headings' = resultHeadings headings
              in case setSheetRowErr w 1 of
                   Some e \<Rightarrow> (Abort (Fatal (FatalErr (ErrLibrary e))), [SetSheetRow 1 headings'])
                 | None \<Rightarrow>
                     (case mapRows c (parseFloatOk w) (tl rows) of
                        Inl a \<Rightarrow> (Abort a, [SetSheetRow 1 headings'])
                      | Inr items \<Rightarrow>
                          (case main_import cfg w rows c headings' \<lparr> ImportRequest.ImportItems = items \<rparr> of
                             (out, ev) \<Rightarrow> (out, SetSheetRow 1 headings' # ev))))))"

section \<open>A sample run\<close>

text \<open>
  Inputs for concrete runs: a sheet with the four mandatory columns and two data rows, a
  server that answers the submission with 201 and a location, the first status request
  with \<open>pending\<close> and the later ones with \<open>processed\<close>, and the fetch with 200 and the
  given items.
\<close>

definition sampleConfig :: config where
  "sampleConfig =
     \<lparr> url = ''https://drotsolutions.com'', apiKey = ''secret'',
       outputPath = ''result.xlsx'', timeout = 120 \<rparr>"

definition sampleHeadings :: "string list" where
  "sampleHeadings = [''id'', ''name'', ''description'', ''customs territories'']"

definition sampleRows :: "string list list" where
  "sampleRows =
     [sampleHeadings,
      [''A1'', ''laptop'', ''a portable computer'', ''EU, no''],
      [''A2'', ''car'', ''a passenger car'', ''no'']]"

definition sampleWorld :: "ImportItemResponse list \<Rightarrow> world" where
  "sampleWorld items =
     \<lparr> parseFloatOk = (\<lambda>s. True),
       setSheetRowErr = (\<lambda>n. None),
       submitReply = SubmitResponse 201 [] ''/jobs/1'',
       statusReply = (\<lambda>n. if n = 0 then StatusDoc (Some ''pending'')
                           else StatusDoc (Some ''processed'')),
       fetchReply = FetchResponse 200 [] (Inr \<lparr> ImportResponse.ImportItems = items \<rparr>),
       saveAsErr = None \<rparr>"

definition sampleItem :: "string \<Rightarrow> (string \<times> string) list \<Rightarrow> ImportItemResponse" where
  "sampleItem itemID codes =
     \<lparr> ImportItemResponse.ID = itemID,
       Tarics = map (\<lambda>(t, c). \<lparr> CustomsTerritory = t, Code = c \<rparr>) codes \<rparr>"

section \<open>Notions used to state the properties of the poll\<close>

text \<open>
  A reply to a status request is non-terminal when it decodes and does not set the status
  to \<open>failed\<close> or \<open>processed\<close>. \<open>decodeInto status r\<close> is the status held by the
  variable \<^verbatim>\<open>importStatusResponse\<close> after the reply \<open>r\<close> was decoded into it, and
  \<open>lastStatus w n\<close> the status it holds after the first \<open>n\<close> replies. \<open>statusRequest\<close>
  is the request that every iteration of the poll sends.
\<close>

definition nonTerminal :: "status_reply \<Rightarrow> bool" where
  "nonTerminal r =
     (case r of
        StatusDoc d \<Rightarrow> d \<noteq> Some ImportItemStatusFailed \<and> d \<noteq> Some ImportItemStatusProcessed
      | _ \<Rightarrow> False)"

definition decodeInto :: "string \<Rightarrow> status_reply \<Rightarrow> string" where
  "decodeInto status r = (case r of StatusDoc (Some s) \<Rightarrow> s | _ \<Rightarrow> status)"

definition lastStatus :: "world \<Rightarrow> nat \<Rightarrow> string" where
  "lastStatus w n = foldl decodeInto [] (map (statusReply w) [0..<n])"

definition statusRequest :: "string \<Rightarrow> string \<Rightarrow> string \<Rightarrow> event" where
  "statusRequest u importLocation key =
     Get (u @ importLocation @ ''/status'') (''Bearer '' @ key)"

declare waitForProcessing_loop.simps [simp del]

declare padRow.simps [simp del]

section \<open>Lemmas on the row lookup\<close>

lemma getRowByItemID_loop_panic_iff:
  "getRowByItemID_loop i rows idIndex itemID = Inl IndexOutOfRange \<longleftrightarrow>
     (\<exists>k<length rows. length (rows ! k) \<le> idIndex \<and>
        (\<forall>j<k. idIndex < length (rows ! j) \<and> rows ! j ! idIndex \<noteq> itemID))"
proof (induction rows arbitrary: i)
  case Nil
  then show ?case by simp
next
  case (Cons row rest)
  show ?case
  proof (cases "idIndex < length row")
    case False
    then have "getRowByItemID_loop i (row # rest) idIndex itemID = Inl IndexOutOfRange" by simp
    moreover have "\<exists>k<length (row # rest). length ((row # rest) ! k) \<le> idIndex \<and>
        (\<forall>j<k. idIndex < length ((row # rest) ! j) \<and> (row # rest) ! j ! idIndex \<noteq> itemID)"
      using False by (intro exI[of _ 0]) simp
    ultimately show ?thesis by simp
  next
    case True
    show ?thesis
    proof (cases "itemID = row ! idIndex")
      case hit: True
      have "\<not> (\<exists>k<length (row # rest). length ((row # rest) ! k) \<le> idIndex \<and>
        (\<forall>j<k. idIndex < length ((row # rest) ! j) \<and> (row # rest) ! j ! idIndex \<noteq> itemID))"
      proof
        assume "\<exists>k<length (row # rest). length ((row # rest) ! k) \<le> idIndex \<and>
        (\<forall>j<k. idIndex < length ((row # rest) ! j) \<and> (row # rest) ! j ! idIndex \<noteq> itemID)"
        then obtain k where k: "length ((row # rest) ! k) \<le> idIndex"
          "\<forall>j<k. (row # rest) ! j ! idIndex \<noteq> itemID" by blast
        from k(1) True have "k \<noteq> 0" by (cases k) auto
        with k(2) have "(row # rest) ! 0 ! idIndex \<noteq> itemID" by blast
        with hit show False by simp
      qed
      with True hit show ?thesis by simp
    next
      case miss: False
      have "(\<exists>k<length (row # rest). length ((row # rest) ! k) \<le> idIndex \<and>
        (\<forall>j<k. idIndex < length ((row # rest) ! j) \<and> (row # rest) ! j ! idIndex \<noteq> itemID))
        \<longleftrightarrow> (\<exists>k<length rest. length (rest ! k) \<le> idIndex \<and>
        (\<forall>j<k. idIndex < length (rest ! j) \<and> rest ! j ! idIndex \<noteq> itemID))" (is "?L \<longleftrightarrow> ?R")
      proof
        assume ?L
        then obtain k where k: "k < length (row # rest)" "length ((row # rest) ! k) \<le> idIndex"
          "\<forall>j<k. idIndex < length ((row # rest) ! j) \<and> (row # rest) ! j ! idIndex \<noteq> itemID" by blast
        from k(2) True obtain k' where k': "k = Suc k'" by (cases k) auto
        have "\<forall>j<k'. idIndex < length (rest ! j) \<and> rest ! j ! idIndex \<noteq> itemID"
        proof (intro allI impI)
          fix j assume "j < k'"
          then have "Suc j < k" using k' by simp
          with k(3) have "idIndex < length ((row # rest) ! Suc j) \<and> (row # rest) ! Suc j ! idIndex \<noteq> itemID"
            by blast
          then show "idIndex < length (rest ! j) \<and> rest ! j ! idIndex \<noteq> itemID" by simp
        qed
        with k(1,2) k' show ?R by (intro exI[of _ k']) simp
      next
        assume ?R
        then obtain k where k: "k < length rest" "length (rest ! k) \<le> idIndex"
          "\<forall>j<k. idIndex < length (rest ! j) \<and> rest ! j ! idIndex \<noteq> itemID" by blast
        have "\<forall>j<Suc k. idIndex < length ((row # rest) ! j) \<and> (row # rest) ! j ! idIndex \<noteq> itemID"
        proof (intro allI impI)
          fix j assume j: "j < Suc k"
          show "idIndex < length ((row # rest) ! j) \<and> (row # rest) ! j ! idIndex \<noteq> itemID"
          proof (cases j)
            case 0
            with True miss show ?thesis by simp
          next
            case (Suc j')
            with j k(3) show ?thesis by simp
          qed
        qed
        with k(1,2) show ?L by (intro exI[of _ "Suc k"]) simp
      qed
      with True miss Cons.IH[of "Suc i"] show ?thesis by simp
    qed
  qed
qed

lemma getRowByItemID_loop_found:
  "getRowByItemID_loop i rows idIndex itemID = Inr (Some (k, row)) \<Longrightarrow>
     i \<le> k \<and> k - i < length rows \<and> rows ! (k - i) = row \<and> idIndex < length row \<and>
     row ! idIndex = itemID"
proof (induction rows arbitrary: i)
  case Nil
  then show ?case by simp
next
  case (Cons r rest)
  show ?case
  proof (cases "idIndex < length r \<and> itemID \<noteq> r ! idIndex")
    case True
    with Cons.prems have "getRowByItemID_loop (Suc i) rest idIndex itemID = Inr (Some (k, row))"
      by simp
    from Cons.IH[OF this] have ih: "Suc i \<le> k" "k - Suc i < length rest" "rest ! (k - Suc i) = row"
      "idIndex < length row" "row ! idIndex = itemID" by auto
    from ih(1) have "k - i = Suc (k - Suc i)" by simp
    with ih show ?thesis by simp
  next
    case False
    with Cons.prems show ?thesis by (auto split: if_splits)
  qed
qed

lemma getRowByItemID_loop_none:
  "getRowByItemID_loop i rows idIndex itemID = Inr None \<longleftrightarrow>
     (\<forall>row\<in>set rows. idIndex < length row \<and> row ! idIndex \<noteq> itemID)"
  by (induction rows arbitrary: i) auto

section \<open>Lemmas on strings and on the row mapper\<close>

lemma Split_not_Nil: "Split s sep \<noteq> []"
  by (induction s) (auto split: list.splits)

lemma Split_no_sep: "sep \<notin> set s \<Longrightarrow> Split s sep = [s]"
  by (induction s) auto

lemma toLowerByte_space: "isSpace c \<Longrightarrow> toLowerByte c = c"
  by (auto simp: isSpace_def toLowerByte_def)

lemma ToLower_spaces: "\<forall>c\<in>set s. isSpace c \<Longrightarrow> ToLower s = s"
  by (simp add: ToLower_def map_idI toLowerByte_space)

lemma dropWhile_all: "\<forall>c\<in>set s. P c \<Longrightarrow> dropWhile P s = []"
  by (induction s) auto

lemma TrimSpace_spaces:
  assumes "\<forall>c\<in>set s. isSpace c"
  shows "TrimSpace s = []"
proof -
  have d: "dropWhile isSpace s = []" using assms by (rule dropWhile_all)
  show ?thesis unfolding TrimSpace_def d by simp
qed

lemma comma_not_space: "\<not> isSpace (CHR '','')"
  by (simp add: isSpace_def)

lemma TrimSpace_padding:
  assumes l: "\<forall>c\<in>set l. isSpace c" and r: "\<forall>c\<in>set r. isSpace c"
  shows "TrimSpace (l @ v @ r) = TrimSpace v"
proof -
  have 1: "dropWhile isSpace (l @ v @ r) = dropWhile isSpace (v @ r)"
    by (rule dropWhile_append2) (use l in auto)
  show ?thesis
  proof (cases "\<forall>c\<in>set v. isSpace c")
    case True
    with l r have "\<forall>c\<in>set (l @ v @ r). isSpace c" by auto
    then have "TrimSpace (l @ v @ r) = []" by (rule TrimSpace_spaces)
    moreover have "TrimSpace v = []" using True by (rule TrimSpace_spaces)
    ultimately show ?thesis by simp
  next
    case False
    then obtain c where c: "c \<in> set v" "\<not> isSpace c" by blast
    then have 2: "dropWhile isSpace (v @ r) = dropWhile isSpace v @ r"
      by (rule dropWhile_append1)
    have "dropWhile isSpace (rev r @ rev (dropWhile isSpace v))
            = dropWhile isSpace (rev (dropWhile isSpace v))"
      by (rule dropWhile_append2) (use r in auto)
    with 1 2 show ?thesis by (simp add: TrimSpace_def)
  qed
qed

lemma prepareCustomsTerritories_loop_find:
  "prepareCustomsTerritories_loop acc ps =
     (case find (\<lambda>t. t \<notin> set allowedCustomsTerritories) (map (\<lambda>p. TrimSpace (ToLower p)) ps) of
        Some t \<Rightarrow> Inl (ErrUnsupportedTerritory t)
      | None \<Rightarrow> Inr (acc @ map (\<lambda>p. TrimSpace (ToLower p)) ps))"
  by (induction ps arbitrary: acc) (auto simp: Let_def split: option.splits)

lemma prepareCustomsTerritories_find:
  "prepareCustomsTerritories s =
     (case find (\<lambda>t. t \<notin> set allowedCustomsTerritories)
             (map (\<lambda>p. TrimSpace (ToLower p)) (Split s (CHR '',''))) of
        Some t \<Rightarrow> Inl (ErrUnsupportedTerritory t)
      | None \<Rightarrow> Inr (map (\<lambda>p. TrimSpace (ToLower p)) (Split s (CHR '',''))))"
  by (simp add: prepareCustomsTerritories_def prepareCustomsTerritories_loop_find split: option.splits)

lemma prepareCustomsTerritories_Inr_length:
  "prepareCustomsTerritories s = Inr ts \<Longrightarrow> length ts = length (Split s (CHR '',''))"
  by (auto simp: prepareCustomsTerritories_find split: option.splits)

lemma prepareCustomsTerritories_Inr_allowed:
  "prepareCustomsTerritories s = Inr ts \<Longrightarrow> set ts \<subseteq> set allowedCustomsTerritories"
  by (auto simp: prepareCustomsTerritories_find find_None_iff split: option.splits)

lemma prepareCustomsTerritories_spaces:
  assumes "\<forall>c\<in>set s. isSpace c"
  shows "prepareCustomsTerritories s = Inl (ErrUnsupportedTerritory [])"
proof -
  from assms have "CHR '','' \<notin> set s" using comma_not_space by blast
  then have "Split s (CHR '','') = [s]" by (rule Split_no_sep)
  moreover have "TrimSpace (ToLower s) = []"
    using assms by (simp add: ToLower_spaces TrimSpace_spaces)
  ultimately show ?thesis
    by (simp add: prepareCustomsTerritories_find allowedCustomsTerritories_def
        customsTerritoryEU_def customsTerritoryNO_def)
qed

lemma mapRow_territories_rejected:
  assumes "iID c < length row" "iName c < length row" "iDescription c < length row"
    "iCustomsTerritories c < length row"
    "prepareCustomsTerritories (row ! iCustomsTerritories c) = Inl err"
  shows "mapRow c parseOk row = Inl (Fatal (FatalErr err))"
  using assms by (simp add: mapRow_def andThen_def orPanic_def getString_def)

lemma mapRow_territories_abort:
  assumes "iCustomsTerritories c < length row"
    "prepareCustomsTerritories (row ! iCustomsTerritories c) = Inl err"
  shows "\<exists>a. mapRow c parseOk row = Inl a"
  using assms by (simp add: mapRow_def andThen_def orPanic_def getString_def)

lemma mapRow_Inr_territories:
  assumes "mapRow c parseOk row = Inr item"
  shows "iCustomsTerritories c < length row \<and>
         prepareCustomsTerritories (row ! iCustomsTerritories c) = Inr (CustomsTerritories item)"
  using assms
  by (auto simp: mapRow_def andThen_def orPanic_def getString_def split: sum.splits if_splits)

lemma mapRows_abort:
  "row \<in> set rs \<Longrightarrow> mapRow c parseOk row = Inl a \<Longrightarrow> \<exists>a'. mapRows c parseOk rs = Inl a'"
  by (induction rs) (auto split: sum.splits)

lemma mapRows_Inr_items:
  "mapRows c parseOk rs = Inr items \<Longrightarrow> item \<in> set items \<Longrightarrow>
     \<exists>row\<in>set rs. mapRow c parseOk row = Inr item"
  by (induction rs arbitrary: items) (auto split: sum.splits)

lemma main_mapping_abort:
  assumes "mandatoryColumns (rows ! 0) = Inr m"
    "mapRows (allColumns (rows ! 0) m) (parseFloatOk w) (tl rows) = Inl a"
  shows "fst (main cfg w rows) \<noteq> Done \<and> (\<forall>e\<in>set (snd (main cfg w rows)). \<not> isHttp e)"
  using assms by (auto simp: main_def Let_def split: option.splits)

lemma getRowByItemID_loop_panic_kind:
  "getRowByItemID_loop i rows idIndex itemID = Inl p \<Longrightarrow> p = IndexOutOfRange"
  by (induction rows arbitrary: i) (auto split: if_splits)

lemma mapRows_first_abort:
  "mapRows c parseOk pre = Inr items \<Longrightarrow> mapRow c parseOk row = Inl a \<Longrightarrow>
     mapRows c parseOk (pre @ row # post) = Inl a"
  by (induction pre arbitrary: items) (auto split: sum.splits)

lemma main_mapping_abort_exact:
  assumes "2 \<le> length rows" "mandatoryColumns (rows ! 0) = Inr m" "setSheetRowErr w 1 = None"
    "mapRows (allColumns (rows ! 0) m) (parseFloatOk w) (tl rows) = Inl a"
  shows "main cfg w rows = (Abort a, [SetSheetRow 1 (resultHeadings (rows ! 0))])"
  using assms by (simp add: main_def Let_def)

lemma allowed_set: "set allowedCustomsTerritories = {''eu'', ''no''}"
  by (simp add: allowedCustomsTerritories_def customsTerritoryEU_def customsTerritoryNO_def)

section \<open>Lemmas on the column lookup\<close>

lemma getColumnIndex_loop_None_iff:
  "getColumnIndex_loop i row name = None \<longleftrightarrow>
     (\<forall>cell\<in>set row. \<not> EqualFold name (TrimSpace cell))"
  by (induction row arbitrary: i) auto

lemma getColumnIndex_loop_Some_iff:
  "getColumnIndex_loop i row name = Some k \<longleftrightarrow>
     i \<le> k \<and> k - i < length row \<and> EqualFold name (TrimSpace (row ! (k - i))) \<and>
     (\<forall>j<k - i. \<not> EqualFold name (TrimSpace (row ! j)))"
proof (induction row arbitrary: i)
  case Nil
  then show ?case by simp
next
  case (Cons cell rest)
  show ?case
  proof (cases "EqualFold name (TrimSpace cell)")
    case True
    have "(i \<le> k \<and> k - i < length (cell # rest) \<and>
            EqualFold name (TrimSpace ((cell # rest) ! (k - i))) \<and>
            (\<forall>j<k - i. \<not> EqualFold name (TrimSpace ((cell # rest) ! j)))) \<longleftrightarrow> k = i"
    proof
      assume a: "i \<le> k \<and> k - i < length (cell # rest) \<and>
            EqualFold name (TrimSpace ((cell # rest) ! (k - i))) \<and>
            (\<forall>j<k - i. \<not> EqualFold name (TrimSpace ((cell # rest) ! j)))"
      show "k = i"
      proof (rule ccontr)
        assume "k \<noteq> i"
        with a have "0 < k - i" by simp
        with a have "\<not> EqualFold name (TrimSpace ((cell # rest) ! 0))" by blast
        with True show False by simp
      qed
    next
      assume "k = i"
      with True show "i \<le> k \<and> k - i < length (cell # rest) \<and>
            EqualFold name (TrimSpace ((cell # rest) ! (k - i))) \<and>
            (\<forall>j<k - i. \<not> EqualFold name (TrimSpace ((cell # rest) ! j)))" by simp
    qed
    with True show ?thesis by auto
  next
    case False
    have "(i \<le> k \<and> k - i < length (cell # rest) \<and>
            EqualFold name (TrimSpace ((cell # rest) ! (k - i))) \<and>
            (\<forall>j<k - i. \<not> EqualFold name (TrimSpace ((cell # rest) ! j)))) \<longleftrightarrow>
          (Suc i \<le> k \<and> k - Suc i < length rest \<and>
            EqualFold name (TrimSpace (rest ! (k - Suc i))) \<and>
            (\<forall>j<k - Suc i. \<not> EqualFold name (TrimSpace (rest ! j))))" (is "?L \<longleftrightarrow> ?R")
    proof
      assume l: ?L
      have "k \<noteq> i"
      proof
        assume "k = i"
        with l have "EqualFold name (TrimSpace cell)" by simp
        with False show False by simp
      qed
      with l have s: "Suc i \<le> k" by simp
      then have d: "k - i = Suc (k - Suc i)" by simp
      have "\<forall>j<k - Suc i. \<not> EqualFold name (TrimSpace (rest ! j))"
      proof (intro allI impI)
        fix j assume "j < k - Suc i"
        then have "Suc j < k - i" using d by simp
        with l have "\<not> EqualFold name (TrimSpace ((cell # rest) ! Suc j))" by blast
        then show "\<not> EqualFold name (TrimSpace (rest ! j))" by simp
      qed
      with l s d show ?R by simp
    next
      assume r: ?R
      then have "Suc i \<le> k" by blast
      then have d: "k - i = Suc (k - Suc i)" by arith
      have "\<forall>j<k - i. \<not> EqualFold name (TrimSpace ((cell # rest) ! j))"
      proof (intro allI impI)
        fix j assume j: "j < k - i"
        show "\<not> EqualFold name (TrimSpace ((cell # rest) ! j))"
        proof (cases j)
          case 0
          with False show ?thesis by simp
        next
          case (Suc j')
          with j d have "j' < k - Suc i" by simp
          with r Suc show ?thesis by simp
        qed
      qed
      with r d show ?L by simp
    qed
    with False Cons.IH[of "Suc i"] show ?thesis by simp
  qed
qed

lemma getColumnIndex_Some_iff:
  "getColumnIndex headings name = Some i \<longleftrightarrow>
     i < length headings \<and> EqualFold name (TrimSpace (headings ! i)) \<and>
     (\<forall>j<i. \<not> EqualFold name (TrimSpace (headings ! j)))"
  by (simp add: getColumnIndex_def getColumnIndex_loop_Some_iff)

lemma getColumnIndex_None_iff:
  "getColumnIndex headings name = None \<longleftrightarrow>
     (\<forall>cell\<in>set headings. \<not> EqualFold name (TrimSpace cell))"
  by (simp add: getColumnIndex_def getColumnIndex_loop_None_iff)

lemma getColumnIndex_variant:
  assumes "\<forall>ch\<in>set l. isSpace ch" "\<forall>ch\<in>set r. isSpace ch" "TrimSpace v = v"
    "ToLower v = ToLower name" "\<forall>cell\<in>set pre. \<not> EqualFold name (TrimSpace cell)"
  shows "getColumnIndex (pre @ (l @ v @ r) # post) name = Some (length pre)"
proof -
  have "TrimSpace (l @ v @ r) = v"
    using assms(1,2,3) by (simp add: TrimSpace_padding)
  then have "EqualFold name (TrimSpace ((pre @ (l @ v @ r) # post) ! length pre))"
    using assms(4) by (simp add: EqualFold_def)
  moreover have "\<forall>j<length pre. \<not> EqualFold name (TrimSpace ((pre @ (l @ v @ r) # post) ! j))"
    using assms(5) by (simp add: nth_append)
  ultimately show ?thesis by (simp add: getColumnIndex_Some_iff)
qed

lemma mandatoryColumns_one_missing:
  assumes "name \<in> {''id'', ''name'', ''description'', ''customs territories''}"
    "getColumnIndex headings name = None"
    "\<forall>n\<in>{''id'', ''name'', ''description'', ''customs territories''} - {name}.
       getColumnIndex headings n \<noteq> None"
  shows "mandatoryColumns headings = Inl (ErrMissingColumn name)"
proof -
  have n: "name = ''id'' \<or> name = ''name'' \<or> name = ''description'' \<or> name = ''customs territories''"
    using assms(1) by blast
  have p: "n \<noteq> name \<Longrightarrow> n = ''id'' \<or> n = ''name'' \<or> n = ''description'' \<or> n = ''customs territories''
        \<Longrightarrow> \<exists>i. getColumnIndex headings n = Some i" for n
    using assms(3) by blast
  from n show ?thesis
  proof (elim disjE)
    assume a: "name = ''id''"
    with assms(2) show ?thesis
      by (simp add: mandatoryColumns_def getMandatoryColumnIndex_def)
  next
    assume a: "name = ''name''"
    then obtain i1 where "getColumnIndex headings ''id'' = Some i1"
      using p[of "''id''"] by auto
    with a assms(2) show ?thesis
      by (simp add: mandatoryColumns_def getMandatoryColumnIndex_def)
  next
    assume a: "name = ''description''"
    then obtain i1 i2 where "getColumnIndex headings ''id'' = Some i1"
      "getColumnIndex headings ''name'' = Some i2"
      using p[of "''id''"] p[of "''name''"] by auto
    with a assms(2) show ?thesis
      by (simp add: mandatoryColumns_def getMandatoryColumnIndex_def)
  next
    assume a: "name = ''customs territories''"
    then obtain i1 i2 i3 where "getColumnIndex headings ''id'' = Some i1"
      "getColumnIndex headings ''name'' = Some i2" "getColumnIndex headings ''description'' = Some i3"
      using p[of "''id''"] p[of "''name''"] p[of "''description''"] by auto
    with a assms(2) show ?thesis
      by (simp add: mandatoryColumns_def getMandatoryColumnIndex_def)
  qed
qed

lemma mandatoryColumns_all_present:
  assumes "getColumnIndex headings ''id'' = Some i1" "getColumnIndex headings ''name'' = Some i2"
    "getColumnIndex headings ''description'' = Some i3"
    "getColumnIndex headings ''customs territories'' = Some i4"
  shows "mandatoryColumns headings = Inr (i1, i2, i3, i4)"
  using assms by (simp add: mandatoryColumns_def getMandatoryColumnIndex_def)

lemma main_missing_column:
  assumes "2 \<le> length rows" "mandatoryColumns (rows ! 0) = Inl err"
  shows "main cfg w rows = (Abort (Fatal (FatalErr err)), [])"
  using assms by (simp add: main_def)

section \<open>Lemmas on the poll\<close>

lemma waitForProcessing_loop_exhausted:
  "\<not> i < N \<Longrightarrow>
     waitForProcessing_loop w u loc key N i st = (Some ErrNotProcessed, [PrintStatus st])"
  by (subst waitForProcessing_loop.simps) simp

lemma waitForProcessing_loop_continue:
  assumes "i < N" "nonTerminal (statusReply w (nat i))"
    "st \<noteq> ImportItemStatusFailed" "st \<noteq> ImportItemStatusProcessed"
  shows "waitForProcessing_loop w u loc key N i st =
     (case waitForProcessing_loop w u loc key N (i + 1) (decodeInto st (statusReply w (nat i))) of
        (r, ev) \<Rightarrow> (r, statusRequest u loc key # Sleep # ev))
     \<and> decodeInto st (statusReply w (nat i)) \<noteq> ImportItemStatusFailed
     \<and> decodeInto st (statusReply w (nat i)) \<noteq> ImportItemStatusProcessed"
proof -
  from assms(2) obtain d where d: "statusReply w (nat i) = StatusDoc d"
    "d \<noteq> Some ImportItemStatusFailed" "d \<noteq> Some ImportItemStatusProcessed"
    by (auto simp: nonTerminal_def split: status_reply.splits)
  show ?thesis
  proof (cases d)
    case None
    with d assms show ?thesis
      by (subst waitForProcessing_loop.simps) (simp add: decodeInto_def statusRequest_def)
  next
    case (Some s)
    with d assms show ?thesis
      by (subst waitForProcessing_loop.simps) (simp add: decodeInto_def statusRequest_def)
  qed
qed

lemma waitForProcessing_loop_terminal:
  assumes "i < N" "statusReply w (nat i) = StatusDoc (Some s)"
    "s = ImportItemStatusFailed \<or> s = ImportItemStatusProcessed"
  shows "waitForProcessing_loop w u loc key N i st =
     (if s = ImportItemStatusFailed then Some ErrFailed else None, [statusRequest u loc key])"
  using assms by (subst waitForProcessing_loop.simps) (auto simp: statusRequest_def)

lemma waitForProcessing_loop_timeout:
  "0 \<le> i \<Longrightarrow> nat (N - i) = n \<Longrightarrow>
   \<forall>j. nat i \<le> j \<and> j < nat N \<longrightarrow> nonTerminal (statusReply w j) \<Longrightarrow>
   st \<noteq> ImportItemStatusFailed \<Longrightarrow> st \<noteq> ImportItemStatusProcessed \<Longrightarrow>
   waitForProcessing_loop w u loc key N i st =
     (Some ErrNotProcessed,
      concat (replicate n [statusRequest u loc key, Sleep])
        @ [PrintStatus (foldl decodeInto st (map (statusReply w) [nat i..<nat N]))])"
proof (induction n arbitrary: i st)
  case 0
  then have "\<not> i < N" by simp
  moreover from 0 have "[nat i..<nat N] = []" by simp
  ultimately show ?case by (simp add: waitForProcessing_loop_exhausted)
next
  case (Suc n)
  then have lt: "i < N" by simp
  with Suc.prems have nt: "nonTerminal (statusReply w (nat i))" by simp
  let ?st = "decodeInto st (statusReply w (nat i))"
  note step = waitForProcessing_loop_continue[OF lt nt Suc.prems(4,5), of u loc key]
  have n1: "nat (i + 1) = Suc (nat i)" using Suc.prems(1) by simp
  have "waitForProcessing_loop w u loc key N (i + 1) ?st =
     (Some ErrNotProcessed,
      concat (replicate n [statusRequest u loc key, Sleep])
        @ [PrintStatus (foldl decodeInto ?st (map (statusReply w) [nat (i + 1)..<nat N]))])"
  proof (rule Suc.IH)
    show "0 \<le> i + 1" using Suc.prems(1) by simp
    show "nat (N - (i + 1)) = n" using Suc.prems(2) by simp
    show "\<forall>j. nat (i + 1) \<le> j \<and> j < nat N \<longrightarrow> nonTerminal (statusReply w j)"
      using Suc.prems(3) n1 by simp
    show "?st \<noteq> ImportItemStatusFailed" using step by blast
    show "?st \<noteq> ImportItemStatusProcessed" using step by blast
  qed
  moreover have "[nat i..<nat N] = nat i # [nat (i + 1)..<nat N]"
    using lt Suc.prems(1) n1 by (simp add: upt_conv_Cons)
  ultimately show ?case using step by simp
qed

lemma waitForProcessing_loop_stops:
  "0 \<le> i \<Longrightarrow> i + int k < N \<Longrightarrow>
   \<forall>j<k. nonTerminal (statusReply w (nat i + j)) \<Longrightarrow>
   statusReply w (nat i + k) = StatusDoc (Some s) \<Longrightarrow>
   s = ImportItemStatusFailed \<or> s = ImportItemStatusProcessed \<Longrightarrow>
   st \<noteq> ImportItemStatusFailed \<Longrightarrow> st \<noteq> ImportItemStatusProcessed \<Longrightarrow>
   waitForProcessing_loop w u loc key N i st =
     (if s = ImportItemStatusFailed then Some ErrFailed else None,
      concat (replicate k [statusRequest u loc key, Sleep]) @ [statusRequest u loc key])"
proof (induction k arbitrary: i st)
  case 0
  then show ?case
    using waitForProcessing_loop_terminal[of i N w s u loc key st] by simp
next
  case (Suc k)
  then have lt: "i < N" by simp
  from Suc.prems(3) have nt: "nonTerminal (statusReply w (nat i))"
    by (metis add.right_neutral zero_less_Suc)
  let ?st = "decodeInto st (statusReply w (nat i))"
  note step = waitForProcessing_loop_continue[OF lt nt Suc.prems(6,7), of u loc key]
  have n1: "nat (i + 1) = Suc (nat i)" using Suc.prems(1) by simp
  have "waitForProcessing_loop w u loc key N (i + 1) ?st =
     (if s = ImportItemStatusFailed then Some ErrFailed else None,
      concat (replicate k [statusRequest u loc key, Sleep]) @ [statusRequest u loc key])"
  proof (rule Suc.IH)
    show "0 \<le> i + 1" using Suc.prems(1) by simp
    show "i + 1 + int k < N" using Suc.prems(2) by simp
    show "\<forall>j<k. nonTerminal (statusReply w (nat (i + 1) + j))"
    proof (intro allI impI)
      fix j assume "j < k"
      then have "Suc j < Suc k" by simp
      with Suc.prems(3) have "nonTerminal (statusReply w (nat i + Suc j))" by blast
      then show "nonTerminal (statusReply w (nat (i + 1) + j))" using n1 by simp
    qed
    show "statusReply w (nat (i + 1) + k) = StatusDoc (Some s)"
      using Suc.prems(4) n1 by simp
    show "s = ImportItemStatusFailed \<or> s = ImportItemStatusProcessed" by (rule Suc.prems(5))
    show "?st \<noteq> ImportItemStatusFailed" using step by blast
    show "?st \<noteq> ImportItemStatusProcessed" using step by blast
  qed
  then show ?case using step by simp
qed

lemma lastStatus_Suc:
  "lastStatus w (Suc n) = decodeInto (lastStatus w n) (statusReply w n)"
  by (simp add: lastStatus_def)

lemma count_gets_rounds:
  "length (filter isGet (concat (replicate n [statusRequest u loc key, Sleep]))) = n"
  by (induction n) (simp_all add: statusRequest_def)

lemma isGet_statusRequest: "isGet (statusRequest u loc key)"
  by (simp add: statusRequest_def)

section \<open>Lemmas on the effects of the client\<close>

lemma sendImportRequest_events:
  "\<forall>e\<in>set (snd (sendImportRequest w request u key)). \<not> isSetSheetRow e"
  by (simp add: sendImportRequest_def Let_def split: submit_reply.splits)

lemma getImportResponse_events:
  "\<forall>e\<in>set (snd (getImportResponse w u loc key)). \<not> isSetSheetRow e"
  by (simp add: getImportResponse_def Let_def split: fetch_reply.splits sum.splits)

lemma waitForProcessing_loop_events:
  "nat (N - i) = n \<Longrightarrow>
     \<forall>e\<in>set (snd (waitForProcessing_loop w u loc key N i st)). \<not> isSetSheetRow e"
proof (induction n arbitrary: i st)
  case 0
  then have "\<not> i < N" by simp
  then show ?case by (simp add: waitForProcessing_loop_exhausted)
next
  case (Suc n)
  then have lt: "i < N" by simp
  have ih: "\<forall>e\<in>set (snd (waitForProcessing_loop w u loc key N (i + 1) st')). \<not> isSetSheetRow e"
    for st'
    by (rule Suc.IH) (use Suc.prems in simp)
  show ?case
  proof (cases "statusReply w (nat i)")
    case (StatusDoc d)
    let ?st = "case d of None \<Rightarrow> st | Some s \<Rightarrow> s"
    obtain r ev where rec: "waitForProcessing_loop w u loc key N (i + 1) ?st = (r, ev)"
      by (cases "waitForProcessing_loop w u loc key N (i + 1) ?st")
    with ih[of ?st] have ev: "\<forall>e\<in>set ev. \<not> isSetSheetRow e" by simp
    from lt StatusDoc rec ev show ?thesis
      by (subst waitForProcessing_loop.simps) (simp add: Let_def)
  next
    case (StatusNotSent e)
    with lt show ?thesis by (subst waitForProcessing_loop.simps) simp
  next
    case (StatusDoErr e)
    with lt show ?thesis by (subst waitForProcessing_loop.simps) simp
  next
    case (StatusBodyErr e)
    with lt show ?thesis by (subst waitForProcessing_loop.simps) simp
  qed
qed

lemma waitForProcessing_events:
  "\<forall>e\<in>set (snd (waitForProcessing w u loc key N)). \<not> isSetSheetRow e"
  unfolding waitForProcessing_def by (rule waitForProcessing_loop_events[OF refl])

section \<open>Lemmas on the reconciler\<close>

lemma reconcileItem_cases:
  obtains (panic) p where "reconcileItem w c hs rows item = (Some (Panic p), [])"
  | (notfound) "getRowByItemID rows (iID c) (ImportItemResponse.ID item) = Inr None"
      "reconcileItem w c hs rows item =
         (Some (Fatal (FatalRowNotFound (ImportItemResponse.ID item))), [])"
  | (written) k row tEU tNO r cells where
      "getRowByItemID rows (iID c) (ImportItemResponse.ID item) = Inr (Some (k, row))"
      "getTaricByTerritory item customsTerritoryEU = Some tEU"
      "getTaricByTerritory item customsTerritoryNO = Some tNO"
      "reconcileItem w c hs rows item = (r, [SetSheetRow (k + 1) cells])"
      "r = None \<or> (\<exists>e. r = Some (Fatal (FatalErr (ErrLibrary e))))"
proof (cases "getRowByItemID rows (iID c) (ImportItemResponse.ID item)")
  case (Inl p)
  then have "reconcileItem w c hs rows item = (Some (Panic p), [])"
    by (simp add: reconcileItem_def)
  then show ?thesis by (rule panic)
next
  case (Inr found)
  show ?thesis
  proof (cases found)
    case None
    with Inr have g: "getRowByItemID rows (iID c) (ImportItemResponse.ID item) = Inr None"
      by simp
    then have "reconcileItem w c hs rows item =
         (Some (Fatal (FatalRowNotFound (ImportItemResponse.ID item))), [])"
      by (simp add: reconcileItem_def)
    with g show ?thesis by (rule notfound)
  next
    case (Some kr)
    obtain k row where kr: "kr = (k, row)" by (cases kr)
    with Inr Some
    have g: "getRowByItemID rows (iID c) (ImportItemResponse.ID item) = Inr (Some (k, row))"
      by simp
    show ?thesis
    proof (cases "getTaricByTerritory item customsTerritoryEU")
      case None
      with g have "reconcileItem w c hs rows item = (Some (Panic NilDereference), [])"
        by (simp add: reconcileItem_def Let_def)
      then show ?thesis by (rule panic)
    next
      case eu: (Some tEU)
      show ?thesis
      proof (cases "setIndex (padRow row (length hs + 1)) (iResultEU c) (Code tEU)")
        case (Inl p)
        with g eu have "reconcileItem w c hs rows item = (Some (Panic p), [])"
          by (simp add: reconcileItem_def Let_def)
        then show ?thesis by (rule panic)
      next
        case r1: (Inr row1)
        show ?thesis
        proof (cases "getTaricByTerritory item customsTerritoryNO")
          case None
          with g eu r1 have "reconcileItem w c hs rows item = (Some (Panic NilDereference), [])"
            by (simp add: reconcileItem_def Let_def)
          then show ?thesis by (rule panic)
        next
          case no: (Some tNO)
          show ?thesis
          proof (cases "setIndex row1 (iResultNO c) (Code tNO)")
            case (Inl p)
            with g eu r1 no have "reconcileItem w c hs rows item = (Some (Panic p), [])"
              by (simp add: reconcileItem_def Let_def)
            then show ?thesis by (rule panic)
          next
            case r2: (Inr row2)
            show ?thesis
            proof (cases "setSheetRowErr w (k + 1)")
              case None
              with g eu r1 no r2
              have "reconcileItem w c hs rows item = (None, [SetSheetRow (k + 1) row2])"
                by (simp add: reconcileItem_def Let_def)
              with g eu no show ?thesis by (rule written) simp
            next
              case (Some e)
              with g eu r1 no r2
              have "reconcileItem w c hs rows item =
                      (Some (Fatal (FatalErr (ErrLibrary e))), [SetSheetRow (k + 1) row2])"
                by (simp add: reconcileItem_def Let_def)
              with g eu no show ?thesis by (rule written) simp
            qed
          qed
        qed
      qed
    qed
  qed
qed

lemma reconcileItem_events:
  "\<forall>e\<in>set (snd (reconcileItem w c hs rows item)). isSetSheetRow e"
  by (cases rule: reconcileItem_cases[of w c hs rows item]) simp_all

lemma reconcile_events:
  "\<forall>e\<in>set (snd (reconcile w c hs rows items)). isSetSheetRow e"
proof (induction items)
  case Nil
  then show ?case by simp
next
  case (Cons item items)
  obtain r ev where ri: "reconcileItem w c hs rows item = (r, ev)" by (cases "reconcileItem w c hs rows item")
  then have ev: "\<forall>e\<in>set ev. isSetSheetRow e"
    using reconcileItem_events[of w c hs rows item] by simp
  obtain r' ev' where rs: "reconcile w c hs rows items = (r', ev')" by (cases "reconcile w c hs rows items")
  with Cons.IH have ev': "\<forall>e\<in>set ev'. isSetSheetRow e" by simp
  show ?case
  proof (cases r)
    case None
    with ri rs ev ev' show ?thesis by auto
  next
    case (Some a)
    with ri ev show ?thesis by simp
  qed
qed

lemma reconcileItem_None:
  assumes "reconcileItem w c hs rows item = (None, ev)"
  shows "\<exists>k row. getRowByItemID rows (iID c) (ImportItemResponse.ID item) = Inr (Some (k, row))
          \<and> getTaricByTerritory item customsTerritoryEU \<noteq> None
          \<and> getTaricByTerritory item customsTerritoryNO \<noteq> None"
  using assms by (cases rule: reconcileItem_cases[of w c hs rows item]) auto

lemma reconcile_None:
  "reconcile w c hs rows items = (None, ev) \<Longrightarrow> item \<in> set items \<Longrightarrow>
     \<exists>ev'. reconcileItem w c hs rows item = (None, ev')"
proof (induction items arbitrary: ev)
  case Nil
  then show ?case by simp
next
  case (Cons it items)
  obtain r e1 where ri: "reconcileItem w c hs rows it = (r, e1)" by (cases "reconcileItem w c hs rows it")
  obtain r' e2 where rs: "reconcile w c hs rows items = (r', e2)" by (cases "reconcile w c hs rows items")
  from Cons.prems(1) ri rs have r: "r = None" "r' = None"
    by (auto split: option.splits)
  show ?case
  proof (cases "item = it")
    case True
    with ri r show ?thesis by blast
  next
    case False
    with Cons.prems(2) have "item \<in> set items" by simp
    with Cons.IH[of e2] rs r show ?thesis by blast
  qed
qed

lemma getRowByItemID_found:
  assumes "getRowByItemID rows idIndex itemID = Inr (Some (k, row))"
  shows "k < length rows \<and> rows ! k = row \<and> idIndex < length row \<and> row ! idIndex = itemID"
  using getRowByItemID_loop_found[of 0 rows idIndex itemID k row] assms
  by (simp add: getRowByItemID_def)

lemma reconcileItem_not_found:
  assumes "\<forall>row\<in>set rows. iID c < length row \<and> row ! iID c \<noteq> ImportItemResponse.ID item"
  shows "reconcileItem w c hs rows item =
           (Some (Fatal (FatalRowNotFound (ImportItemResponse.ID item))), [])"
proof -
  have "getRowByItemID rows (iID c) (ImportItemResponse.ID item) = Inr None"
    unfolding getRowByItemID_def using assms by (simp add: getRowByItemID_loop_none)
  then show ?thesis by (simp add: reconcileItem_def)
qed

lemma padRow_eq: "padRow row n = row @ replicate (n - length row) []"
proof (induction row n rule: padRow.induct)
  case (1 row n)
  show ?case
  proof (cases "length row < n")
    case True
    then have "n - length row = Suc (n - length (row @ [[]]))" by simp
    moreover have "padRow (row @ [[]]) n = (row @ [[]]) @ replicate (n - length (row @ [[]])) []"
      using True by (rule "1.IH")
    ultimately show ?thesis
      using True by (subst padRow.simps) simp
  next
    case False
    then show ?thesis by (subst padRow.simps) simp
  qed
qed

lemma reconcileItem_writes_codes:
  assumes "getRowByItemID rows (iID c) (ImportItemResponse.ID item) = Inr (Some (k, row))"
    "getTaricByTerritory item customsTerritoryEU = Some tEU"
    "getTaricByTerritory item customsTerritoryNO = Some tNO"
    "iResultEU c < length hs" "iResultNO c < length hs" "iResultEU c \<noteq> iResultNO c"
    "setSheetRowErr w (k + 1) = None"
  shows "\<exists>cells. reconcileItem w c hs rows item = (None, [SetSheetRow (k + 1) cells])
          \<and> cells ! iResultEU c = Code tEU \<and> cells ! iResultNO c = Code tNO"
proof -
  let ?row = "padRow row (length hs + 1)"
  have l: "length hs + 1 \<le> length ?row" by (simp add: padRow_eq)
  with assms(4,5) have b: "iResultEU c < length ?row" "iResultNO c < length ?row" by simp_all
  let ?cells = "?row[iResultEU c := Code tEU, iResultNO c := Code tNO]"
  from assms b have "reconcileItem w c hs rows item = (None, [SetSheetRow (k + 1) ?cells])"
    by (simp add: reconcileItem_def Let_def setIndex_def)
  moreover from b assms(6) have "?cells ! iResultEU c = Code tEU" "?cells ! iResultNO c = Code tNO"
    by simp_all
  ultimately show ?thesis by blast
qed

section \<open>Lemmas on the run\<close>

lemma main_import_cases:
  obtains
    (send_failed) err ev1 where
      "sendImportRequest w imp0 (url cfg) (apiKey cfg) = (Inl err, ev1)"
      "main_import cfg w rows c hs imp0 = (Abort (Fatal (FatalErr err)), ev1)"
  | (poll_failed) loc ev1 err ev2 where
      "sendImportRequest w imp0 (url cfg) (apiKey cfg) = (Inr loc, ev1)"
      "waitForProcessing w (url cfg) loc (apiKey cfg) (timeout cfg) = (Some err, ev2)"
      "main_import cfg w rows c hs imp0 =
         (Abort (Fatal (if err = ErrFailed then FatalProcessing else FatalErr err)), ev1 @ ev2)"
  | (fetch_failed) loc ev1 ev2 err ev3 where
      "sendImportRequest w imp0 (url cfg) (apiKey cfg) = (Inr loc, ev1)"
      "waitForProcessing w (url cfg) loc (apiKey cfg) (timeout cfg) = (None, ev2)"
      "getImportResponse w (url cfg) loc (apiKey cfg) = (Inl err, ev3)"
      "main_import cfg w rows c hs imp0 = (Abort (Fatal (FatalErr err)), ev1 @ ev2 @ ev3)"
  | (reconcile_failed) loc ev1 ev2 imp ev3 a ev4 where
      "sendImportRequest w imp0 (url cfg) (apiKey cfg) = (Inr loc, ev1)"
      "waitForProcessing w (url cfg) loc (apiKey cfg) (timeout cfg) = (None, ev2)"
      "getImportResponse w (url cfg) loc (apiKey cfg) = (Inr imp, ev3)"
      "reconcile w c hs rows (ImportResponse.ImportItems imp) = (Some a, ev4)"
      "main_import cfg w rows c hs imp0 = (Abort a, ev1 @ ev2 @ ev3 @ ev4)"
  | (saved) loc ev1 ev2 imp ev3 ev4 out where
      "sendImportRequest w imp0 (url cfg) (apiKey cfg) = (Inr loc, ev1)"
      "waitForProcessing w (url cfg) loc (apiKey cfg) (timeout cfg) = (None, ev2)"
      "getImportResponse w (url cfg) loc (apiKey cfg) = (Inr imp, ev3)"
      "reconcile w c hs rows (ImportResponse.ImportItems imp) = (None, ev4)"
      "main_import cfg w rows c hs imp0 =
         (out, ev1 @ ev2 @ ev3 @ ev4 @ [SaveAs (outputPath cfg)])"
      "out = Done \<or> (\<exists>e. out = Abort (Fatal (FatalErr (ErrLibrary e))))"
proof -
  obtain r1 ev1 where s: "sendImportRequest w imp0 (url cfg) (apiKey cfg) = (r1, ev1)"
    by (cases "sendImportRequest w imp0 (url cfg) (apiKey cfg)")
  show ?thesis
  proof (cases r1)
    case (Inl err)
    with s have "main_import cfg w rows c hs imp0 = (Abort (Fatal (FatalErr err)), ev1)"
      by (simp add: main_import_def)
    with s Inl show ?thesis by (intro send_failed[of err ev1]) simp_all
  next
    case (Inr loc)
    with s have s': "sendImportRequest w imp0 (url cfg) (apiKey cfg) = (Inr loc, ev1)" by simp
    obtain r2 ev2 where p: "waitForProcessing w (url cfg) loc (apiKey cfg) (timeout cfg) = (r2, ev2)"
      by (cases "waitForProcessing w (url cfg) loc (apiKey cfg) (timeout cfg)")
    show ?thesis
    proof (cases r2)
      case (Some err)
      with s' p have "main_import cfg w rows c hs imp0 =
         (Abort (Fatal (if err = ErrFailed then FatalProcessing else FatalErr err)), ev1 @ ev2)"
        by (simp add: main_import_def)
      with s' p Some show ?thesis by (intro poll_failed[of loc ev1 err ev2]) simp_all
    next
      case None
      with p have p': "waitForProcessing w (url cfg) loc (apiKey cfg) (timeout cfg) = (None, ev2)"
        by simp
      obtain r3 ev3 where f: "getImportResponse w (url cfg) loc (apiKey cfg) = (r3, ev3)"
        by (cases "getImportResponse w (url cfg) loc (apiKey cfg)")
      show ?thesis
      proof (cases r3)
        case (Inl err)
        with s' p' f have "main_import cfg w rows c hs imp0 =
            (Abort (Fatal (FatalErr err)), ev1 @ ev2 @ ev3)"
          by (simp add: main_import_def)
        with s' p' f Inl show ?thesis by (intro fetch_failed[of loc ev1 ev2 err ev3]) simp_all
      next
        case (Inr imp)
        with f have f': "getImportResponse w (url cfg) loc (apiKey cfg) = (Inr imp, ev3)" by simp
        obtain r4 ev4 where r: "reconcile w c hs rows (ImportResponse.ImportItems imp) = (r4, ev4)"
          by (cases "reconcile w c hs rows (ImportResponse.ImportItems imp)")
        show ?thesis
        proof (cases r4)
          case (Some a)
          with s' p' f' r have "main_import cfg w rows c hs imp0 = (Abort a, ev1 @ ev2 @ ev3 @ ev4)"
            by (simp add: main_import_def)
          with s' p' f' r Some show ?thesis
            by (intro reconcile_failed[of loc ev1 ev2 imp ev3 a ev4]) simp_all
        next
          case None
          with r have r': "reconcile w c hs rows (ImportResponse.ImportItems imp) = (None, ev4)"
            by simp
          show ?thesis
          proof (cases "saveAsErr w")
            case None
            with s' p' f' r' have "main_import cfg w rows c hs imp0 =
                (Done, ev1 @ ev2 @ ev3 @ ev4 @ [SaveAs (outputPath cfg)])"
              by (simp add: main_import_def)
            with s' p' f' r' show ?thesis
              by (intro saved[of loc ev1 ev2 imp ev3 ev4 Done]) simp_all
          next
            case (Some e)
            with s' p' f' r' have "main_import cfg w rows c hs imp0 =
                (Abort (Fatal (FatalErr (ErrLibrary e))),
                 ev1 @ ev2 @ ev3 @ ev4 @ [SaveAs (outputPath cfg)])"
              by (simp add: main_import_def)
            with s' p' f' r' show ?thesis
              by (intro saved[of loc ev1 ev2 imp ev3 ev4 "Abort (Fatal (FatalErr (ErrLibrary e)))"])
                simp_all
          qed
        qed
      qed
    qed
  qed
qed

lemma main_cases:
  obtains
    (no_import) a where "main cfg w rows = (Abort a, [])"
  | (heading_only) a where
      "main cfg w rows = (Abort a, [SetSheetRow 1 (resultHeadings (rows ! 0))])"
  | (imported) m items out ev where
      "2 \<le> length rows" "mandatoryColumns (rows ! 0) = Inr m" "setSheetRowErr w 1 = None"
      "mapRows (allColumns (rows ! 0) m) (parseFloatOk w) (tl rows) = Inr items"
      "main_import cfg w rows (allColumns (rows ! 0) m) (resultHeadings (rows ! 0))
         \<lparr> ImportRequest.ImportItems = items \<rparr> = (out, ev)"
      "main cfg w rows = (out, SetSheetRow 1 (resultHeadings (rows ! 0)) # ev)"
proof (cases "length rows < 2")
  case True
  then have "main cfg w rows = (Abort (Fatal FatalEmptyFile), [])" by (simp add: main_def)
  then show ?thesis by (rule no_import)
next
  case False
  then have l: "2 \<le> length rows" by simp
  show ?thesis
  proof (cases "mandatoryColumns (rows ! 0)")
    case (Inl err)
    with False have "main cfg w rows = (Abort (Fatal (FatalErr err)), [])"
      by (simp add: main_def)
    then show ?thesis by (rule no_import)
  next
    case (Inr m)
    show ?thesis
    proof (cases "setSheetRowErr w 1")
      case (Some e)
      with False Inr have "main cfg w rows =
          (Abort (Fatal (FatalErr (ErrLibrary e))), [SetSheetRow 1 (resultHeadings (rows ! 0))])"
        by (simp add: main_def Let_def)
      then show ?thesis by (rule heading_only)
    next
      case None
      show ?thesis
      proof (cases "mapRows (allColumns (rows ! 0) m) (parseFloatOk w) (tl rows)")
        case (Inl a)
        with False Inr None have "main cfg w rows =
            (Abort a, [SetSheetRow 1 (resultHeadings (rows ! 0))])"
          by (simp add: main_def Let_def)
        then show ?thesis by (rule heading_only)
      next
        case items: (Inr items)
        obtain out ev where mi:
          "main_import cfg w rows (allColumns (rows ! 0) m) (resultHeadings (rows ! 0))
             \<lparr> ImportRequest.ImportItems = items \<rparr> = (out, ev)"
          by (cases "main_import cfg w rows (allColumns (rows ! 0) m) (resultHeadings (rows ! 0))
             \<lparr> ImportRequest.ImportItems = items \<rparr>")
        with False Inr None items
        have "main cfg w rows = (out, SetSheetRow 1 (resultHeadings (rows ! 0)) # ev)"
          by (simp add: main_def Let_def)
        with l Inr None items mi show ?thesis by (intro imported[of m items out ev])
      qed
    qed
  qed
qed

lemma getImportResponse_Inr:
  assumes "getImportResponse w u loc key = (Inr imp, ev)"
  shows "\<exists>body. fetchReply w = FetchResponse 200 body (Inr imp)"
proof (cases "fetchReply w")
  case (FetchNotSent e)
  with assms show ?thesis by (simp add: getImportResponse_def)
next
  case (FetchDoErr e)
  with assms show ?thesis by (simp add: getImportResponse_def)
next
  case (FetchResponse code body decoded)
  with assms show ?thesis
    by (cases decoded) (simp_all add: getImportResponse_def Let_def split: if_splits)
qed

lemma main_Done:
  assumes "fst (main cfg w rows) = Done"
  obtains m items loc ev1 ev2 imp ev3 ev4 where
    "mandatoryColumns (rows ! 0) = Inr m"
    "mapRows (allColumns (rows ! 0) m) (parseFloatOk w) (tl rows) = Inr items"
    "sendImportRequest w \<lparr> ImportRequest.ImportItems = items \<rparr> (url cfg) (apiKey cfg) = (Inr loc, ev1)"
    "waitForProcessing w (url cfg) loc (apiKey cfg) (timeout cfg) = (None, ev2)"
    "getImportResponse w (url cfg) loc (apiKey cfg) = (Inr imp, ev3)"
    "reconcile w (allColumns (rows ! 0) m) (resultHeadings (rows ! 0)) rows
       (ImportResponse.ImportItems imp) = (None, ev4)"
proof (cases rule: main_cases[of cfg w rows])
  case (no_import a)
  with assms show ?thesis by simp
next
  case (heading_only a)
  with assms show ?thesis by simp
next
  case (imported m items out ev)
  with assms have d: "out = Done" by simp
  show ?thesis
  proof (cases rule: main_import_cases[of w "\<lparr> ImportRequest.ImportItems = items \<rparr>" cfg rows
        "allColumns (rows ! 0) m" "resultHeadings (rows ! 0)"])
    case (send_failed err ev1)
    with imported(5) d show ?thesis by simp
  next
    case (poll_failed loc ev1 err ev2)
    with imported(5) d show ?thesis by simp
  next
    case (fetch_failed loc ev1 ev2 err ev3)
    with imported(5) d show ?thesis by simp
  next
    case (reconcile_failed loc ev1 ev2 imp ev3 a ev4)
    with imported(5) d show ?thesis by simp
  next
    case (saved loc ev1 ev2 imp ev3 ev4 out')
    with imported(2,4) show ?thesis by (intro that[of m items loc ev1 ev2 imp ev3 ev4])
  qed
qed

lemma isHttp_not_sheet: "isSetSheetRow e \<Longrightarrow> \<not> isHttp e"
  by (cases e) simp_all

section \<open>C1: an item without a code for one of the two territories\<close>

text \<open>
  Claim C1 says that the reconciler writes an empty string into the cell of a territory
  for which the item has no code. \<^verbatim>\<open>getTaricByTerritory\<close> returns nil for such a
  territory and \<^verbatim>\<open>main\<close> reads \<^verbatim>\<open>.Code\<close> through the pointer without a check. In
  the sample run the response holds both codes for \<open>A1\<close> and only the \<open>no\<close> code for
  \<open>A2\<close>: the row of \<open>A1\<close> is written, then the run panics on \<open>A2\<close> with a nil
  dereference and the file is not saved.
\<close>

theorem missing_territory_panics:
  "getTaricByTerritory (sampleItem ''A2'' [(''no'', ''8703.23'')]) customsTerritoryEU = None
   \<and> main sampleConfig
       (sampleWorld [sampleItem ''A1'' [(''eu'', ''8471.30''), (''no'', ''8471.30'')],
                     sampleItem ''A2'' [(''no'', ''8703.23'')]])
       sampleRows
     = (Abort (Panic NilDereference),
        [SetSheetRow 1 [''id'', ''name'', ''description'', ''customs territories'',
                        ''result EU'', ''result NO''],
         Post ''https://drotsolutions.com/api/v1/items/imports'' ''Bearer secret''
           \<lparr> ImportRequest.ImportItems =
               [\<lparr> ImportItemRequest.ID = ''A1'', Name = ''laptop'',
                   Description = ''a portable computer'', CustomsTerritories = [''eu'', ''no''],
                   Category = None, Subcategory = None, CountryOfOrigin = None,
                   GrossMass = None, NetMass = None, WeightUnit = None, Model = None \<rparr>,
                \<lparr> ImportItemRequest.ID = ''A2'', Name = ''car'',
                   Description = ''a passenger car'', CustomsTerritories = [''no''],
                   Category = None, Subcategory = None, CountryOfOrigin = None,
                   GrossMass = None, NetMass = None, WeightUnit = None, Model = None \<rparr>] \<rparr>,
         Get ''https://drotsolutions.com/jobs/1/status'' ''Bearer secret'', Sleep,
         Get ''https://drotsolutions.com/jobs/1/status'' ''Bearer secret'',
         Get ''https://drotsolutions.com/jobs/1'' ''Bearer secret'',
         SetSheetRow 2 [''A1'', ''laptop'', ''a portable computer'', ''EU, no'',
                        ''8471.30'', ''8471.30'', []]])"
  by code_simp

section \<open>C2: the Authorization header of a key given with or without the prefix\<close>

text \<open>
  Claim C2 says that for every API key the header is the same whether the key is given
  bare or already prefixed with \<open>Bearer \<close>. \<^verbatim>\<open>prepareApiKey\<close> strips one leading
  \<open>Bearer \<close> only, so the claim fails for a key that itself begins with \<open>Bearer \<close>:
  given bare, the key \<open>Bearer secret\<close> yields the header \<open>Bearer secret\<close>; given with the
  prefix, it yields \<open>Bearer Bearer secret\<close>.
\<close>

theorem prepareApiKey_prefixed_key_counterexample:
  "prepareApiKey (''Bearer '' @ ''Bearer secret'') \<noteq> prepareApiKey ''Bearer secret''"
  by (simp add: prepareApiKey_def TrimPrefix_def)

text \<open>
  Claim C2 as amended. \<^verbatim>\<open>prepareApiKey\<close> strips exactly one leading \<open>Bearer \<close> before it
  adds the prefix: a key given with the prefix yields \<open>Bearer \<close> followed by the key, and
  for a key that does not itself begin with \<open>Bearer \<close> the header is the same whether the
  key is given bare or with the prefix.
\<close>

theorem prepareApiKey_strips_one_prefix:
  "prepareApiKey (''Bearer '' @ k) = ''Bearer '' @ k
   \<and> (\<not> prefix ''Bearer '' k \<longrightarrow>
        prepareApiKey k = ''Bearer '' @ k \<and> prepareApiKey (''Bearer '' @ k) = prepareApiKey k)"
  by (simp add: prepareApiKey_def TrimPrefix_def)

theorem prepareApiKey_strips_one_prefix_witness:
  "\<not> prefix ''Bearer '' ''secret''
   \<and> prepareApiKey ''secret'' = ''Bearer secret''
   \<and> prepareApiKey ''Bearer secret'' = prepareApiKey ''secret''"
proof -
  have h: "\<not> prefix ''Bearer '' ''secret''" by simp
  from prepareApiKey_strips_one_prefix[of "''secret''"] h
  have "prepareApiKey ''secret'' = ''Bearer '' @ ''secret''
        \<and> prepareApiKey (''Bearer '' @ ''secret'') = prepareApiKey ''secret''"
    by blast
  with h show ?thesis by simp
qed

section \<open>C3: a poll that sees no terminal status uses up its budget\<close>

text \<open>
  Claim C3. When the first \<open>N\<close> status responses all decode and none of them sets the
  status to \<open>processed\<close> or \<open>failed\<close>, \<^verbatim>\<open>waitForProcessing\<close> with the tick budget
  \<open>N\<close> sends exactly \<open>N\<close> status requests, each followed by a sleep of one second,
  then prints the status document it holds, which is the last one observed, and returns
  \<open>ErrNotProcessed\<close>. The budget is a Go \<^verbatim>\<open>int\<close>; for a budget below zero the loop
  body never runs, which is \<open>nat N = 0\<close> rounds.
\<close>

theorem poll_timeout:
  "(\<forall>j<nat N. nonTerminal (statusReply w j)) \<longrightarrow>
     waitForProcessing w u loc key N =
       (Some ErrNotProcessed,
        concat (replicate (nat N) [statusRequest u loc key, Sleep])
          @ [PrintStatus (lastStatus w (nat N))])
     \<and> length (filter isGet (snd (waitForProcessing w u loc key N))) = nat N
     \<and> length (filter (\<lambda>e. e = Sleep) (snd (waitForProcessing w u loc key N))) = nat N
     \<and> (0 \<le> N \<longrightarrow> int (length (filter isGet (snd (waitForProcessing w u loc key N)))) = N)
     \<and> (\<forall>s. 0 < N \<and> statusReply w (nat N - 1) = StatusDoc (Some s) \<longrightarrow>
            lastStatus w (nat N) = s)"
proof (intro impI)
  assume a: "\<forall>j<nat N. nonTerminal (statusReply w j)"
  have f: "[] \<noteq> ImportItemStatusFailed" "[] \<noteq> ImportItemStatusProcessed"
    by (simp_all add: ImportItemStatusFailed_def ImportItemStatusProcessed_def)
  have "waitForProcessing_loop w u loc key N 0 [] =
     (Some ErrNotProcessed,
      concat (replicate (nat N) [statusRequest u loc key, Sleep])
        @ [PrintStatus (foldl decodeInto [] (map (statusReply w) [nat 0..<nat N]))])"
    by (rule waitForProcessing_loop_timeout) (use a f in simp_all)
  then have r: "waitForProcessing w u loc key N =
       (Some ErrNotProcessed,
        concat (replicate (nat N) [statusRequest u loc key, Sleep])
          @ [PrintStatus (lastStatus w (nat N))])"
    by (simp add: waitForProcessing_def lastStatus_def)
  have g: "length (filter isGet (snd (waitForProcessing w u loc key N))) = nat N"
    by (simp add: r count_gets_rounds)
  have sl: "length (filter (\<lambda>e. e = Sleep) (concat (replicate n [statusRequest u loc key, Sleep]))) = n"
    for n by (induction n) (simp_all add: statusRequest_def)
  have s: "length (filter (\<lambda>e. e = Sleep) (snd (waitForProcessing w u loc key N))) = nat N"
    by (simp add: r sl)
  have l: "lastStatus w (nat N) = s"
    if "0 < N \<and> statusReply w (nat N - 1) = StatusDoc (Some s)" for s
  proof -
    from that have "nat N = Suc (nat N - 1)" by simp
    then have "lastStatus w (nat N) = decodeInto (lastStatus w (nat N - 1)) (statusReply w (nat N - 1))"
      using lastStatus_Suc[of w "nat N - 1"] by simp
    with that show ?thesis by (simp add: decodeInto_def)
  qed
  from r g s l show "waitForProcessing w u loc key N =
       (Some ErrNotProcessed,
        concat (replicate (nat N) [statusRequest u loc key, Sleep])
          @ [PrintStatus (lastStatus w (nat N))])
     \<and> length (filter isGet (snd (waitForProcessing w u loc key N))) = nat N
     \<and> length (filter (\<lambda>e. e = Sleep) (snd (waitForProcessing w u loc key N))) = nat N
     \<and> (0 \<le> N \<longrightarrow> int (length (filter isGet (snd (waitForProcessing w u loc key N)))) = N)
     \<and> (\<forall>s. 0 < N \<and> statusReply w (nat N - 1) = StatusDoc (Some s) \<longrightarrow>
            lastStatus w (nat N) = s)"
    by simp
qed

theorem poll_timeout_witness:
  "list_all (\<lambda>j. nonTerminal (statusReply (sampleWorld []) j)) [0..<nat 1]
   \<and> waitForProcessing (sampleWorld []) ''https://drotsolutions.com'' ''/jobs/1'' ''secret'' 1 =
       (Some ErrNotProcessed,
        [Get ''https://drotsolutions.com/jobs/1/status'' ''Bearer secret'', Sleep,
         PrintStatus ''pending''])"
proof -
  have h: "\<forall>j<nat 1. nonTerminal (statusReply (sampleWorld []) j)"
    by (simp add: sampleWorld_def nonTerminal_def ImportItemStatusFailed_def
        ImportItemStatusProcessed_def)
  have l: "lastStatus (sampleWorld []) (nat 1) = ''pending''"
    by (simp add: lastStatus_def decodeInto_def sampleWorld_def)
  from poll_timeout[of 1 "sampleWorld []" "''https://drotsolutions.com''" "''/jobs/1''" "''secret''"] h
  have "waitForProcessing (sampleWorld []) ''https://drotsolutions.com'' ''/jobs/1'' ''secret'' 1 =
       (Some ErrNotProcessed,
        concat (replicate (nat 1) [statusRequest ''https://drotsolutions.com'' ''/jobs/1'' ''secret'', Sleep])
          @ [PrintStatus (lastStatus (sampleWorld []) (nat 1))])"
    by blast
  with h l show ?thesis by (simp add: statusRequest_def list_all_iff)
qed

section \<open>C4: which identifiers a completed run has matched\<close>

text \<open>
  Claim C4 says that after a completed run every identifier of the input rows has a
  result item in the fetched response, or the run fails. \<^verbatim>\<open>main\<close> checks the other
  direction only: it looks up a row for every item of the response and never looks for
  an item for a row. In the sample run below the response holds an item for \<open>A1\<close> and
  none for the input row \<open>A2\<close>, and the run completes.
\<close>

theorem unanswered_row_counterexample:
  "fst (main sampleConfig
         (sampleWorld [sampleItem ''A1'' [(''eu'', ''8471.30''), (''no'', ''8471.30'')]])
         sampleRows) = Done
   \<and> sampleRows ! 2 ! 0 = ''A2''
   \<and> fetchReply (sampleWorld [sampleItem ''A1'' [(''eu'', ''8471.30''), (''no'', ''8471.30'')]])
       = FetchResponse 200 []
           (Inr \<lparr> ImportResponse.ImportItems =
                   [sampleItem ''A1'' [(''eu'', ''8471.30''), (''no'', ''8471.30'')]] \<rparr>)
   \<and> ''A2'' \<notin> set (map ImportItemResponse.ID
                      [sampleItem ''A1'' [(''eu'', ''8471.30''), (''no'', ''8471.30'')]])"
proof (intro conjI)
  show "fst (main sampleConfig
         (sampleWorld [sampleItem ''A1'' [(''eu'', ''8471.30''), (''no'', ''8471.30'')]])
         sampleRows) = Done"
    by code_simp
  show "sampleRows ! 2 ! 0 = ''A2''" by (simp add: sampleRows_def)
  show "fetchReply (sampleWorld [sampleItem ''A1'' [(''eu'', ''8471.30''), (''no'', ''8471.30'')]])
       = FetchResponse 200 []
           (Inr \<lparr> ImportResponse.ImportItems =
                   [sampleItem ''A1'' [(''eu'', ''8471.30''), (''no'', ''8471.30'')]] \<rparr>)"
    by (simp add: sampleWorld_def)
  show "''A2'' \<notin> set (map ImportItemResponse.ID
                      [sampleItem ''A1'' [(''eu'', ''8471.30''), (''no'', ''8471.30'')]])"
    by (simp add: sampleItem_def)
qed

text \<open>
  Claim C4 as amended. After a completed run every item of the fetched response has a row
  of the sheet whose cell in the id column equals the identifier of the item; and an item
  whose identifier is in the id cell of no row ends the reconciliation with the fatal
  error naming that identifier.
\<close>

theorem result_items_matched:
  "(fst (main cfg w rows) = Done \<longrightarrow>
      (\<exists>body imp i1 i2 i3 i4.
          fetchReply w = FetchResponse 200 body (Inr imp)
        \<and> mandatoryColumns (rows ! 0) = Inr (i1, i2, i3, i4)
        \<and> (\<forall>item\<in>set (ImportResponse.ImportItems imp).
              \<exists>row\<in>set rows. i1 < length row \<and> row ! i1 = ImportItemResponse.ID item)))
   \<and> ((\<forall>row\<in>set rows. iID c < length row \<and> row ! iID c \<noteq> ImportItemResponse.ID item) \<longrightarrow>
        reconcileItem w c hs rows item =
          (Some (Fatal (FatalRowNotFound (ImportItemResponse.ID item))), []))"
proof (intro conjI impI)
  assume "fst (main cfg w rows) = Done"
  then obtain m loc imp ev3 ev4 where
    m: "mandatoryColumns (rows ! 0) = Inr m" and
    f: "getImportResponse w (url cfg) loc (apiKey cfg) = (Inr imp, ev3)" and
    r: "reconcile w (allColumns (rows ! 0) m) (resultHeadings (rows ! 0)) rows
       (ImportResponse.ImportItems imp) = (None, ev4)"
    by (rule main_Done) blast
  obtain i1 i2 i3 i4 where m4: "m = (i1, i2, i3, i4)" by (cases m)
  from f obtain body where b: "fetchReply w = FetchResponse 200 body (Inr imp)"
    using getImportResponse_Inr by blast
  have i: "iID (allColumns (rows ! 0) m) = i1" using m4 by (simp add: allColumns_def)
  have "\<forall>item\<in>set (ImportResponse.ImportItems imp).
          \<exists>row\<in>set rows. i1 < length row \<and> row ! i1 = ImportItemResponse.ID item"
  proof
    fix item assume "item \<in> set (ImportResponse.ImportItems imp)"
    with r obtain ev' where
      "reconcileItem w (allColumns (rows ! 0) m) (resultHeadings (rows ! 0)) rows item = (None, ev')"
      using reconcile_None by blast
    then obtain k row where
      "getRowByItemID rows i1 (ImportItemResponse.ID item) = Inr (Some (k, row))"
      using reconcileItem_None i by metis
    then have "k < length rows \<and> rows ! k = row \<and> i1 < length row
               \<and> row ! i1 = ImportItemResponse.ID item"
      by (rule getRowByItemID_found)
    then show "\<exists>row\<in>set rows. i1 < length row \<and> row ! i1 = ImportItemResponse.ID item"
      using nth_mem by blast
  qed
  with b m m4 show "\<exists>body imp i1 i2 i3 i4.
          fetchReply w = FetchResponse 200 body (Inr imp)
        \<and> mandatoryColumns (rows ! 0) = Inr (i1, i2, i3, i4)
        \<and> (\<forall>item\<in>set (ImportResponse.ImportItems imp).
              \<exists>row\<in>set rows. i1 < length row \<and> row ! i1 = ImportItemResponse.ID item)"
    by blast
next
  assume "\<forall>row\<in>set rows. iID c < length row \<and> row ! iID c \<noteq> ImportItemResponse.ID item"
  then show "reconcileItem w c hs rows item =
          (Some (Fatal (FatalRowNotFound (ImportItemResponse.ID item))), [])"
    by (rule reconcileItem_not_found)
qed

theorem result_items_matched_witness:
  "fst (main sampleConfig
         (sampleWorld [sampleItem ''A1'' [(''eu'', ''8471.30''), (''no'', ''8471.30'')]])
         sampleRows) = Done
   \<and> (\<exists>row\<in>set sampleRows. 0 < length row \<and> row ! 0 = ''A1'')
   \<and> fst (main sampleConfig
         (sampleWorld [sampleItem ''B7'' [(''eu'', ''8471.30''), (''no'', ''8471.30'')]])
         sampleRows) = Abort (Fatal (FatalRowNotFound ''B7''))"
proof -
  let ?items = "[sampleItem ''A1'' [(''eu'', ''8471.30''), (''no'', ''8471.30'')]]"
  have d: "fst (main sampleConfig (sampleWorld ?items) sampleRows) = Done" by code_simp
  have m: "mandatoryColumns (sampleRows ! 0) = Inr (0, 1, 2, 3)" by code_simp
  have f: "fetchReply (sampleWorld ?items) =
             FetchResponse 200 [] (Inr \<lparr> ImportResponse.ImportItems = ?items \<rparr>)"
    by (simp add: sampleWorld_def)
  from result_items_matched[THEN conjunct1, THEN mp, OF d] obtain body imp i1 i2 i3 i4 where
    x: "fetchReply (sampleWorld ?items) = FetchResponse 200 body (Inr imp)"
       "mandatoryColumns (sampleRows ! 0) = Inr (i1, i2, i3, i4)"
       "\<forall>item\<in>set (ImportResponse.ImportItems imp).
              \<exists>row\<in>set sampleRows. i1 < length row \<and> row ! i1 = ImportItemResponse.ID item"
    by blast
  from x(1) f have "imp = \<lparr> ImportResponse.ImportItems = ?items \<rparr>" by simp
  moreover from x(2) m have "i1 = 0" by simp
  ultimately have "\<exists>row\<in>set sampleRows. 0 < length row
      \<and> row ! 0 = ImportItemResponse.ID (sampleItem ''A1'' [(''eu'', ''8471.30''), (''no'', ''8471.30'')])"
    using x(3) by simp
  then have 2: "\<exists>row\<in>set sampleRows. 0 < length row \<and> row ! 0 = ''A1''"
    by (simp add: sampleItem_def)
  have 3: "fst (main sampleConfig
         (sampleWorld [sampleItem ''B7'' [(''eu'', ''8471.30''), (''no'', ''8471.30'')]])
         sampleRows) = Abort (Fatal (FatalRowNotFound ''B7''))"
    by code_simp
  from d 2 3 show ?thesis by (intro conjI)
qed

section \<open>C5: the poll stops at the first terminal status\<close>

text \<open>
  Claim C5. When the status response number \<open>k\<close> (counted from 0, within the budget) is
  the first one whose status is \<open>processed\<close> or \<open>failed\<close>, \<^verbatim>\<open>waitForProcessing\<close>
  sends \<open>k + 1\<close> status requests and nothing after the last of them: it returns
  \<open>ErrFailed\<close> for \<open>failed\<close> and no error for \<open>processed\<close>.
\<close>

theorem poll_stops_at_terminal:
  "(\<forall>j<k. nonTerminal (statusReply w j)) \<and> statusReply w k = StatusDoc (Some s)
     \<and> (s = ImportItemStatusFailed \<or> s = ImportItemStatusProcessed) \<and> int k < N \<longrightarrow>
   waitForProcessing w u loc key N =
     (if s = ImportItemStatusFailed then Some ErrFailed else None,
      concat (replicate k [statusRequest u loc key, Sleep]) @ [statusRequest u loc key])
   \<and> length (filter isGet (snd (waitForProcessing w u loc key N))) = Suc k"
proof (intro impI)
  assume a: "(\<forall>j<k. nonTerminal (statusReply w j)) \<and> statusReply w k = StatusDoc (Some s)
     \<and> (s = ImportItemStatusFailed \<or> s = ImportItemStatusProcessed) \<and> int k < N"
  have f: "[] \<noteq> ImportItemStatusFailed" "[] \<noteq> ImportItemStatusProcessed"
    by (simp_all add: ImportItemStatusFailed_def ImportItemStatusProcessed_def)
  have "waitForProcessing_loop w u loc key N 0 [] =
     (if s = ImportItemStatusFailed then Some ErrFailed else None,
      concat (replicate k [statusRequest u loc key, Sleep]) @ [statusRequest u loc key])"
    by (rule waitForProcessing_loop_stops) (use a f in simp_all)
  then have r: "waitForProcessing w u loc key N =
     (if s = ImportItemStatusFailed then Some ErrFailed else None,
      concat (replicate k [statusRequest u loc key, Sleep]) @ [statusRequest u loc key])"
    by (simp add: waitForProcessing_def)
  have "length (filter isGet (snd (waitForProcessing w u loc key N))) = Suc k"
    by (simp add: r count_gets_rounds isGet_statusRequest)
  with r show "waitForProcessing w u loc key N =
     (if s = ImportItemStatusFailed then Some ErrFailed else None,
      concat (replicate k [statusRequest u loc key, Sleep]) @ [statusRequest u loc key])
   \<and> length (filter isGet (snd (waitForProcessing w u loc key N))) = Suc k"
    by simp
qed

theorem poll_stops_at_terminal_witness:
  "nonTerminal (statusReply (sampleWorld []) 0)
   \<and> statusReply (sampleWorld []) 1 = StatusDoc (Some ImportItemStatusProcessed)
   \<and> waitForProcessing (sampleWorld []) ''https://drotsolutions.com'' ''/jobs/1'' ''secret'' 120 =
       (None,
        [Get ''https://drotsolutions.com/jobs/1/status'' ''Bearer secret'', Sleep,
         Get ''https://drotsolutions.com/jobs/1/status'' ''Bearer secret''])"
proof -
  have h0: "nonTerminal (statusReply (sampleWorld []) 0)"
    by (simp add: sampleWorld_def nonTerminal_def ImportItemStatusFailed_def
        ImportItemStatusProcessed_def)
  then have h: "\<forall>j<Suc 0. nonTerminal (statusReply (sampleWorld []) j)" by simp
  have h1: "statusReply (sampleWorld []) (Suc 0) = StatusDoc (Some ImportItemStatusProcessed)"
    by (simp add: sampleWorld_def ImportItemStatusProcessed_def)
  have ne: "ImportItemStatusProcessed \<noteq> ImportItemStatusFailed"
    by (simp add: ImportItemStatusFailed_def ImportItemStatusProcessed_def)
  from poll_stops_at_terminal[of "Suc 0" "sampleWorld []" ImportItemStatusProcessed 120
      "''https://drotsolutions.com''" "''/jobs/1''" "''secret''"] h h1
  have "waitForProcessing (sampleWorld []) ''https://drotsolutions.com'' ''/jobs/1'' ''secret'' 120 =
     (if ImportItemStatusProcessed = ImportItemStatusFailed then Some ErrFailed else None,
      concat (replicate (Suc 0) [statusRequest ''https://drotsolutions.com'' ''/jobs/1'' ''secret'', Sleep])
        @ [statusRequest ''https://drotsolutions.com'' ''/jobs/1'' ''secret''])"
    by simp
  with h0 h1 ne show ?thesis by (simp add: statusRequest_def)
qed

section \<open>C6: the mandatory columns are found by name, and a missing one is named\<close>

text \<open>
  Claim C6. \<^verbatim>\<open>getColumnIndex\<close> returns the first index of the heading row whose
  cell, trimmed of white space, equals the name under case folding, wherever the column
  stands; a cell that is the name in another case, with white space around it, is found
  at its position. \<^verbatim>\<open>getMandatoryColumnIndex\<close> fails with the missing-column error
  naming the column exactly when no cell matches. When the four mandatory columns are
  present \<^verbatim>\<open>main\<close> gets their four indices; when one of them is absent and the other
  three are present the error names exactly that one; and a run whose heading row lacks
  a mandatory column ends with that error and with no effect at all, so before any
  network call.
\<close>

theorem mandatory_columns_resolved:
  "((getColumnIndex headings name = Some i) =
      (i < length headings \<and> EqualFold name (TrimSpace (headings ! i))
       \<and> (\<forall>j<i. \<not> EqualFold name (TrimSpace (headings ! j)))))
   \<and> ((\<forall>ch\<in>set l. isSpace ch) \<and> (\<forall>ch\<in>set r. isSpace ch) \<and> TrimSpace v = v
        \<and> ToLower v = ToLower name
        \<and> (\<forall>cell\<in>set pre. \<not> EqualFold name (TrimSpace cell)) \<longrightarrow>
       getMandatoryColumnIndex (pre @ (l @ v @ r) # post) name = Inr (length pre))
   \<and> (getMandatoryColumnIndex headings name =
        (case getColumnIndex headings name of
           None \<Rightarrow> Inl (ErrMissingColumn name) | Some k \<Rightarrow> Inr k))
   \<and> ((getColumnIndex headings name = None) =
        (\<forall>cell\<in>set headings. \<not> EqualFold name (TrimSpace cell)))
   \<and> (getColumnIndex headings ''id'' = Some i1 \<and> getColumnIndex headings ''name'' = Some i2
        \<and> getColumnIndex headings ''description'' = Some i3
        \<and> getColumnIndex headings ''customs territories'' = Some i4 \<longrightarrow>
       mandatoryColumns headings = Inr (i1, i2, i3, i4))
   \<and> (name \<in> {''id'', ''name'', ''description'', ''customs territories''}
        \<and> getColumnIndex headings name = None
        \<and> (\<forall>n\<in>{''id'', ''name'', ''description'', ''customs territories''} - {name}.
              getColumnIndex headings n \<noteq> None) \<longrightarrow>
       mandatoryColumns headings = Inl (ErrMissingColumn name))
   \<and> (2 \<le> length rows \<and> mandatoryColumns (rows ! 0) = Inl err \<longrightarrow>
       main cfg w rows = (Abort (Fatal (FatalErr err)), []))"
proof (intro conjI impI)
  show "(getColumnIndex headings name = Some i) =
      (i < length headings \<and> EqualFold name (TrimSpace (headings ! i))
       \<and> (\<forall>j<i. \<not> EqualFold name (TrimSpace (headings ! j))))"
    by (rule getColumnIndex_Some_iff)
  show "getMandatoryColumnIndex (pre @ (l @ v @ r) # post) name = Inr (length pre)"
    if "(\<forall>ch\<in>set l. isSpace ch) \<and> (\<forall>ch\<in>set r. isSpace ch) \<and> TrimSpace v = v
        \<and> ToLower v = ToLower name
        \<and> (\<forall>cell\<in>set pre. \<not> EqualFold name (TrimSpace cell))"
  proof -
    from that have "getColumnIndex (pre @ (l @ v @ r) # post) name = Some (length pre)"
      by (elim conjE) (rule getColumnIndex_variant; assumption)
    then show ?thesis by (simp add: getMandatoryColumnIndex_def)
  qed
  show "getMandatoryColumnIndex headings name =
        (case getColumnIndex headings name of
           None \<Rightarrow> Inl (ErrMissingColumn name) | Some k \<Rightarrow> Inr k)"
    by (simp add: getMandatoryColumnIndex_def)
  show "(getColumnIndex headings name = None) =
        (\<forall>cell\<in>set headings. \<not> EqualFold name (TrimSpace cell))"
    by (rule getColumnIndex_None_iff)
  show "mandatoryColumns headings = Inr (i1, i2, i3, i4)"
    if "getColumnIndex headings ''id'' = Some i1 \<and> getColumnIndex headings ''name'' = Some i2
        \<and> getColumnIndex headings ''description'' = Some i3
        \<and> getColumnIndex headings ''customs territories'' = Some i4"
    using that by (elim conjE) (rule mandatoryColumns_all_present; assumption)
  show "mandatoryColumns headings = Inl (ErrMissingColumn name)"
    if "name \<in> {''id'', ''name'', ''description'', ''customs territories''}
        \<and> getColumnIndex headings name = None
        \<and> (\<forall>n\<in>{''id'', ''name'', ''description'', ''customs territories''} - {name}.
              getColumnIndex headings n \<noteq> None)"
    using that by (elim conjE) (rule mandatoryColumns_one_missing; assumption)
  show "main cfg w rows = (Abort (Fatal (FatalErr err)), [])"
    if "2 \<le> length rows \<and> mandatoryColumns (rows ! 0) = Inl err"
    using that by (elim conjE) (rule main_missing_column; assumption)
qed

theorem mandatory_columns_resolved_witness:
  "getMandatoryColumnIndex [''Description'', ''  NAME '', ''Customs Territories '', ''Id''] ''name''
     = Inr 1
   \<and> mandatoryColumns [''Description'', ''  NAME '', ''Customs Territories '', ''Id'']
     = Inr (3, 1, 0, 2)
   \<and> mandatoryColumns [''id'', ''name'', ''customs territories'']
     = Inl (ErrMissingColumn ''description'')
   \<and> main sampleConfig (sampleWorld [])
        [[''id'', ''name'', ''customs territories''], [''A1'', ''laptop'', ''eu'']]
     = (Abort (Fatal (FatalErr (ErrMissingColumn ''description''))), [])"
proof -
  let ?h = "[''Description'', ''  NAME '', ''Customs Territories '', ''Id'']"
  let ?g = "[''id'', ''name'', ''customs territories'']"
  have sp: "\<forall>ch\<in>set ''  ''. isSpace ch" "\<forall>ch\<in>set '' ''. isSpace ch"
    by (simp_all add: isSpace_def)
  have tr: "TrimSpace ''NAME'' = ''NAME''" by code_simp
  have lo: "ToLower ''NAME'' = ToLower ''name''" by code_simp
  have pre: "\<forall>cell\<in>set [''Description'']. \<not> EqualFold ''name'' (TrimSpace cell)"
    by code_simp
  have "getMandatoryColumnIndex
          ([''Description''] @ (''  '' @ ''NAME'' @ '' '') # [''Customs Territories '', ''Id''])
          ''name'' = Inr (length [''Description''])"
    by (rule mandatory_columns_resolved[THEN conjunct2, THEN conjunct1, THEN mp])
       (intro conjI sp tr lo pre)
  then have 1: "getMandatoryColumnIndex ?h ''name'' = Inr 1" by simp
  have g: "getColumnIndex ?h ''id'' = Some 3" "getColumnIndex ?h ''name'' = Some 1"
    "getColumnIndex ?h ''description'' = Some 0"
    "getColumnIndex ?h ''customs territories'' = Some 2"
    by code_simp+
  have 2: "mandatoryColumns ?h = Inr (3, 1, 0, 2)"
    by (rule mandatory_columns_resolved[THEN conjunct2, THEN conjunct2, THEN conjunct2,
          THEN conjunct2, THEN conjunct1, THEN mp])
       (intro conjI g)
  have n: "getColumnIndex ?g ''description'' = None" by code_simp
  have p: "getColumnIndex ?g ''id'' \<noteq> None" "getColumnIndex ?g ''name'' \<noteq> None"
    "getColumnIndex ?g ''customs territories'' \<noteq> None"
    by code_simp+
  have o: "\<forall>n\<in>{''id'', ''name'', ''description'', ''customs territories''} - {''description''}.
              getColumnIndex ?g n \<noteq> None"
    using p by auto
  have d: "''description'' \<in> {''id'', ''name'', ''description'', ''customs territories''}"
    by simp
  have 3: "mandatoryColumns ?g = Inl (ErrMissingColumn ''description'')"
    by (rule mandatory_columns_resolved[THEN conjunct2, THEN conjunct2, THEN conjunct2,
          THEN conjunct2, THEN conjunct2, THEN conjunct1, THEN mp])
       (intro conjI d n o)
  have l: "2 \<le> length [?g, [''A1'', ''laptop'', ''eu'']]" by simp
  have h3: "mandatoryColumns ([?g, [''A1'', ''laptop'', ''eu'']] ! 0)
             = Inl (ErrMissingColumn ''description'')"
    using 3 by simp
  have 4: "main sampleConfig (sampleWorld []) [?g, [''A1'', ''laptop'', ''eu'']]
     = (Abort (Fatal (FatalErr (ErrMissingColumn ''description''))), [])"
    by (rule mandatory_columns_resolved[THEN conjunct2, THEN conjunct2, THEN conjunct2,
          THEN conjunct2, THEN conjunct2, THEN conjunct2, THEN mp])
       (intro conjI l h3)
  from 1 2 3 4 show ?thesis by (intro conjI)
qed

section \<open>C7: an unsupported customs territory aborts the run before the submission\<close>

text \<open>
  Claim C7. \<^verbatim>\<open>prepareCustomsTerritories\<close> splits the cell at commas, lower-cases and
  trims every piece, and fails with the unsupported-territory error naming the first
  resulting entry outside \<open>eu\<close>, \<open>no\<close>; otherwise it returns the entries. A data row
  whose cell is rejected ends the run without success and without any HTTP request, and
  when it is the first row that fails the run ends with exactly that error, after the
  heading row has been written.
\<close>

theorem unsupported_territory_rejected:
  "prepareCustomsTerritories cell =
     (case find (\<lambda>t. t \<notin> {''eu'', ''no''})
             (map (\<lambda>p. TrimSpace (ToLower p)) (Split cell (CHR '',''))) of
        Some t \<Rightarrow> Inl (ErrUnsupportedTerritory t)
      | None \<Rightarrow> Inr (map (\<lambda>p. TrimSpace (ToLower p)) (Split cell (CHR '',''))))
   \<and> (mandatoryColumns (rows ! 0) = Inr (i1, i2, i3, i4) \<and> row \<in> set (tl rows)
        \<and> i4 < length row \<and> prepareCustomsTerritories (row ! i4) = Inl err \<longrightarrow>
       fst (main cfg w rows) \<noteq> Done \<and> (\<forall>e\<in>set (snd (main cfg w rows)). \<not> isHttp e))
   \<and> (2 \<le> length rows \<and> mandatoryColumns (rows ! 0) = Inr (i1, i2, i3, i4)
        \<and> setSheetRowErr w 1 = None \<and> tl rows = pre @ row # post
        \<and> mapRows (allColumns (rows ! 0) (i1, i2, i3, i4)) (parseFloatOk w) pre = Inr items
        \<and> i1 < length row \<and> i2 < length row \<and> i3 < length row \<and> i4 < length row
        \<and> prepareCustomsTerritories (row ! i4) = Inl err \<longrightarrow>
       main cfg w rows =
         (Abort (Fatal (FatalErr err)), [SetSheetRow 1 (resultHeadings (rows ! 0))]))"
proof (intro conjI impI)
  show "prepareCustomsTerritories cell =
     (case find (\<lambda>t. t \<notin> {''eu'', ''no''})
             (map (\<lambda>p. TrimSpace (ToLower p)) (Split cell (CHR '',''))) of
        Some t \<Rightarrow> Inl (ErrUnsupportedTerritory t)
      | None \<Rightarrow> Inr (map (\<lambda>p. TrimSpace (ToLower p)) (Split cell (CHR '',''))))"
    using prepareCustomsTerritories_find[of cell] by (simp only: allowed_set)
next
  assume h: "mandatoryColumns (rows ! 0) = Inr (i1, i2, i3, i4) \<and> row \<in> set (tl rows)
        \<and> i4 < length row \<and> prepareCustomsTerritories (row ! i4) = Inl err"
  let ?c = "allColumns (rows ! 0) (i1, i2, i3, i4)"
  have c: "iCustomsTerritories ?c = i4" by (simp add: allColumns_def)
  from h c have "\<exists>a. mapRow ?c (parseFloatOk w) row = Inl a"
    by (intro mapRow_territories_abort[where err = err]) simp_all
  with h obtain a where "mapRows ?c (parseFloatOk w) (tl rows) = Inl a"
    using mapRows_abort by blast
  with h have r: "fst (main cfg w rows) \<noteq> Done \<and> (\<forall>e\<in>set (snd (main cfg w rows)). \<not> isHttp e)"
    by (intro main_mapping_abort[where m = "(i1, i2, i3, i4)"]) simp_all
  from r show "fst (main cfg w rows) \<noteq> Done" by blast
  from r show "\<forall>e\<in>set (snd (main cfg w rows)). \<not> isHttp e" by blast
next
  assume h: "2 \<le> length rows \<and> mandatoryColumns (rows ! 0) = Inr (i1, i2, i3, i4)
        \<and> setSheetRowErr w 1 = None \<and> tl rows = pre @ row # post
        \<and> mapRows (allColumns (rows ! 0) (i1, i2, i3, i4)) (parseFloatOk w) pre = Inr items
        \<and> i1 < length row \<and> i2 < length row \<and> i3 < length row \<and> i4 < length row
        \<and> prepareCustomsTerritories (row ! i4) = Inl err"
  let ?c = "allColumns (rows ! 0) (i1, i2, i3, i4)"
  have c: "iID ?c = i1" "iName ?c = i2" "iDescription ?c = i3" "iCustomsTerritories ?c = i4"
    by (simp_all add: allColumns_def)
  from h c have "mapRow ?c (parseFloatOk w) row = Inl (Fatal (FatalErr err))"
    by (intro mapRow_territories_rejected) simp_all
  with h have "mapRows ?c (parseFloatOk w) (tl rows) = Inl (Fatal (FatalErr err))"
    using mapRows_first_abort[of ?c "parseFloatOk w" pre items row "Fatal (FatalErr err)" post]
    by simp
  with h show "main cfg w rows =
         (Abort (Fatal (FatalErr err)), [SetSheetRow 1 (resultHeadings (rows ! 0))])"
    by (intro main_mapping_abort_exact[where m = "(i1, i2, i3, i4)"]) simp_all
qed

theorem unsupported_territory_rejected_witness:
  "prepareCustomsTerritories ''EU , se, xx'' = Inl (ErrUnsupportedTerritory ''se'')
   \<and> mandatoryColumns sampleHeadings = Inr (0, 1, 2, 3)
   \<and> main sampleConfig (sampleWorld [])
        [sampleHeadings, [''A1'', ''laptop'', ''a portable computer'', ''EU, no''],
         [''A2'', ''car'', ''a passenger car'', ''EU , se, xx'']]
      = (Abort (Fatal (FatalErr (ErrUnsupportedTerritory ''se''))),
         [SetSheetRow 1 (resultHeadings sampleHeadings)])
   \<and> fst (main sampleConfig (sampleWorld [])
        [sampleHeadings, [''A1'', ''laptop'', ''a portable computer'', ''EU, no''],
         [''A2'', ''car'', ''a passenger car'', ''EU , se, xx'']]) \<noteq> Done
   \<and> list_all (\<lambda>e. \<not> isHttp e)
        (snd (main sampleConfig (sampleWorld [])
          [sampleHeadings, [''A1'', ''laptop'', ''a portable computer'', ''EU, no''],
           [''A2'', ''car'', ''a passenger car'', ''EU , se, xx'']]))"
proof -
  let ?r1 = "[''A1'', ''laptop'', ''a portable computer'', ''EU, no'']"
  let ?r2 = "[''A2'', ''car'', ''a passenger car'', ''EU , se, xx'']"
  let ?rows = "[sampleHeadings, ?r1, ?r2]"
  have p: "prepareCustomsTerritories ''EU , se, xx'' = Inl (ErrUnsupportedTerritory ''se'')"
    by code_simp
  have m: "mandatoryColumns sampleHeadings = Inr (0, 1, 2, 3)"
    by code_simp
  have s: "setSheetRowErr (sampleWorld []) 1 = None"
    by (simp add: sampleWorld_def)
  let ?items = "[\<lparr> ImportItemRequest.ID = ''A1'', Name = ''laptop'',
      Description = ''a portable computer'', CustomsTerritories = [''eu'', ''no''],
      Category = None, Subcategory = None, CountryOfOrigin = None, GrossMass = None,
      NetMass = None, WeightUnit = None, Model = None \<rparr>]"
  have i: "mapRows (allColumns sampleHeadings (0, 1, 2, 3)) (parseFloatOk (sampleWorld [])) [?r1]
            = Inr ?items"
    by code_simp
  have "main sampleConfig (sampleWorld []) ?rows =
         (Abort (Fatal (FatalErr (ErrUnsupportedTerritory ''se''))),
          [SetSheetRow 1 (resultHeadings (?rows ! 0))])"
    using unsupported_territory_rejected[where rows = ?rows and ?i1.0 = 0 and ?i2.0 = 1
        and ?i3.0 = 2 and ?i4.0 = 3 and w = "sampleWorld []" and pre = "[?r1]" and row = ?r2
        and post = "[]" and items = ?items and err = "ErrUnsupportedTerritory ''se''"
        and cfg = sampleConfig]
      p m s i by simp
  then have e: "main sampleConfig (sampleWorld []) ?rows =
         (Abort (Fatal (FatalErr (ErrUnsupportedTerritory ''se''))),
          [SetSheetRow 1 (resultHeadings sampleHeadings)])"
    by simp
  have h: "mandatoryColumns (?rows ! 0) = Inr (0, 1, 2, 3) \<and> ?r2 \<in> set (tl ?rows)
        \<and> 3 < length ?r2
        \<and> prepareCustomsTerritories (?r2 ! 3) = Inl (ErrUnsupportedTerritory ''se'')"
    using p m by simp
  have g: "fst (main sampleConfig (sampleWorld []) ?rows) \<noteq> Done
        \<and> (\<forall>e\<in>set (snd (main sampleConfig (sampleWorld []) ?rows)). \<not> isHttp e)"
    by (rule unsupported_territory_rejected[THEN conjunct2, THEN conjunct1, THEN mp, OF h])
  from p m e g show ?thesis by (simp add: list_all_iff)
qed

section \<open>C8: when the spreadsheet in memory is written\<close>

text \<open>
  Claim C8 says that no row or header cell of the spreadsheet is written before the
  mapping, submit, poll and fetch stages have all succeeded. \<^verbatim>\<open>main\<close> writes the
  heading row, with the two result columns appended, right after it has resolved the
  columns: in the run below the mapping of the only data row fails, nothing is submitted,
  and the heading row has been written.
\<close>

theorem heading_written_before_mapping_counterexample:
  "main sampleConfig (sampleWorld [])
      [sampleHeadings, [''A1'', ''laptop'', ''a portable computer'', ''se'']]
    = (Abort (Fatal (FatalErr (ErrUnsupportedTerritory ''se''))),
       [SetSheetRow 1 [''id'', ''name'', ''description'', ''customs territories'',
                       ''result EU'', ''result NO'']])"
  by code_simp

text \<open>
  Claim C8 as amended. The first effect of a run that gets past the column lookup is the
  write of the heading row with the two result columns appended. After it the trace
  splits in two: a part without any write to the sheet, and a part without any HTTP
  request that is empty unless the mapping, the submission, the poll and the fetch have
  all succeeded, in which case it is the writes of the reconciler followed at most by
  the saving of the file.
\<close>

theorem sheet_writes_after_success:
  "main cfg w rows = (out, ev) \<longrightarrow>
     ev = [] \<or>
     (\<exists>net rec. ev = SetSheetRow 1 (resultHeadings (rows ! 0)) # net @ rec
        \<and> (\<forall>e\<in>set net. \<not> isSetSheetRow e)
        \<and> (\<forall>e\<in>set rec. \<not> isHttp e)
        \<and> (rec = [] \<or>
            (\<exists>m items loc imp ev4.
                mandatoryColumns (rows ! 0) = Inr m
              \<and> mapRows (allColumns (rows ! 0) m) (parseFloatOk w) (tl rows) = Inr items
              \<and> fst (sendImportRequest w \<lparr> ImportRequest.ImportItems = items \<rparr>
                        (url cfg) (apiKey cfg)) = Inr loc
              \<and> fst (waitForProcessing w (url cfg) loc (apiKey cfg) (timeout cfg)) = None
              \<and> fst (getImportResponse w (url cfg) loc (apiKey cfg)) = Inr imp
              \<and> ev4 = snd (reconcile w (allColumns (rows ! 0) m) (resultHeadings (rows ! 0))
                             rows (ImportResponse.ImportItems imp))
              \<and> (\<forall>e\<in>set ev4. isSetSheetRow e)
              \<and> (rec = ev4 \<or> rec = ev4 @ [SaveAs (outputPath cfg)]))))"
proof
  assume run: "main cfg w rows = (out, ev)"
  let ?H = "SetSheetRow 1 (resultHeadings (rows ! 0))"
  let ?goal = "ev = [] \<or>
     (\<exists>net rec. ev = ?H # net @ rec
        \<and> (\<forall>e\<in>set net. \<not> isSetSheetRow e)
        \<and> (\<forall>e\<in>set rec. \<not> isHttp e)
        \<and> (rec = [] \<or>
            (\<exists>m items loc imp ev4.
                mandatoryColumns (rows ! 0) = Inr m
              \<and> mapRows (allColumns (rows ! 0) m) (parseFloatOk w) (tl rows) = Inr items
              \<and> fst (sendImportRequest w \<lparr> ImportRequest.ImportItems = items \<rparr>
                        (url cfg) (apiKey cfg)) = Inr loc
              \<and> fst (waitForProcessing w (url cfg) loc (apiKey cfg) (timeout cfg)) = None
              \<and> fst (getImportResponse w (url cfg) loc (apiKey cfg)) = Inr imp
              \<and> ev4 = snd (reconcile w (allColumns (rows ! 0) m) (resultHeadings (rows ! 0))
                             rows (ImportResponse.ImportItems imp))
              \<and> (\<forall>e\<in>set ev4. isSetSheetRow e)
              \<and> (rec = ev4 \<or> rec = ev4 @ [SaveAs (outputPath cfg)]))))"
  have early: ?goal if "ev = ?H # net" "\<forall>e\<in>set net. \<not> isSetSheetRow e" for net
  proof -
    from that have "ev = ?H # net @ [] \<and> (\<forall>e\<in>set net. \<not> isSetSheetRow e)
        \<and> (\<forall>e\<in>set []. \<not> isHttp e)" by simp
    then show ?thesis by blast
  qed
  show ?goal
  proof (cases rule: main_cases[of cfg w rows])
    case (no_import a)
    with run show ?thesis by simp
  next
    case (heading_only a)
    with run have "ev = ?H # []" by simp
    then show ?thesis by (rule early) simp
  next
    case (imported m items out' ev')
    with run have ev: "ev = ?H # ev'" by simp
    let ?c = "allColumns (rows ! 0) m"
    let ?imp0 = "\<lparr> ImportRequest.ImportItems = items \<rparr>"
    note s = sendImportRequest_events[of w ?imp0 "url cfg" "apiKey cfg"]
    show ?thesis
    proof (cases rule: main_import_cases[of w ?imp0 cfg rows ?c "resultHeadings (rows ! 0)"])
      case (send_failed err ev1)
      with imported(5) s have "ev' = ev1" "\<forall>e\<in>set ev1. \<not> isSetSheetRow e" by simp_all
      with ev show ?thesis by (intro early[of ev1]) simp_all
    next
      case (poll_failed loc ev1 err ev2)
      with imported(5) s waitForProcessing_events[of w "url cfg" loc "apiKey cfg" "timeout cfg"]
      have "ev' = ev1 @ ev2" "\<forall>e\<in>set (ev1 @ ev2). \<not> isSetSheetRow e" by auto
      with ev show ?thesis by (intro early[of "ev1 @ ev2"]) simp_all
    next
      case (fetch_failed loc ev1 ev2 err ev3)
      with imported(5) s waitForProcessing_events[of w "url cfg" loc "apiKey cfg" "timeout cfg"]
        getImportResponse_events[of w "url cfg" loc "apiKey cfg"]
      have "ev' = ev1 @ ev2 @ ev3" "\<forall>e\<in>set (ev1 @ ev2 @ ev3). \<not> isSetSheetRow e" by auto
      with ev show ?thesis by (intro early[of "ev1 @ ev2 @ ev3"]) simp_all
    next
      case (reconcile_failed loc ev1 ev2 imp ev3 a ev4)
      with imported(5) have e': "ev' = (ev1 @ ev2 @ ev3) @ ev4" by simp
      from reconcile_failed s waitForProcessing_events[of w "url cfg" loc "apiKey cfg" "timeout cfg"]
        getImportResponse_events[of w "url cfg" loc "apiKey cfg"]
      have net: "\<forall>e\<in>set (ev1 @ ev2 @ ev3). \<not> isSetSheetRow e" by auto
      from reconcile_failed(4) reconcile_events[of w ?c "resultHeadings (rows ! 0)" rows
          "ImportResponse.ImportItems imp"]
      have r4: "\<forall>e\<in>set ev4. isSetSheetRow e"
        "ev4 = snd (reconcile w ?c (resultHeadings (rows ! 0)) rows (ImportResponse.ImportItems imp))"
        by simp_all
      then have nh: "\<forall>e\<in>set ev4. \<not> isHttp e" using isHttp_not_sheet by blast
      have st: "mandatoryColumns (rows ! 0) = Inr m
              \<and> mapRows ?c (parseFloatOk w) (tl rows) = Inr items
              \<and> fst (sendImportRequest w ?imp0 (url cfg) (apiKey cfg)) = Inr loc
              \<and> fst (waitForProcessing w (url cfg) loc (apiKey cfg) (timeout cfg)) = None
              \<and> fst (getImportResponse w (url cfg) loc (apiKey cfg)) = Inr imp
              \<and> ev4 = snd (reconcile w ?c (resultHeadings (rows ! 0)) rows
                             (ImportResponse.ImportItems imp))
              \<and> (\<forall>e\<in>set ev4. isSetSheetRow e)
              \<and> (ev4 = ev4 \<or> ev4 = ev4 @ [SaveAs (outputPath cfg)])"
        using imported(2,4) reconcile_failed(1,2,3) r4 by simp
      have "ev = ?H # (ev1 @ ev2 @ ev3) @ ev4" using ev e' by simp
      with net nh st show ?thesis by blast
    next
      case (saved loc ev1 ev2 imp ev3 ev4 out'')
      let ?rec = "ev4 @ [SaveAs (outputPath cfg)]"
      from saved imported(5) have e': "ev' = (ev1 @ ev2 @ ev3) @ ?rec" by simp
      from saved s waitForProcessing_events[of w "url cfg" loc "apiKey cfg" "timeout cfg"]
        getImportResponse_events[of w "url cfg" loc "apiKey cfg"]
      have net: "\<forall>e\<in>set (ev1 @ ev2 @ ev3). \<not> isSetSheetRow e" by auto
      from saved(4) reconcile_events[of w ?c "resultHeadings (rows ! 0)" rows
          "ImportResponse.ImportItems imp"]
      have r4: "\<forall>e\<in>set ev4. isSetSheetRow e"
        "ev4 = snd (reconcile w ?c (resultHeadings (rows ! 0)) rows (ImportResponse.ImportItems imp))"
        by simp_all
      then have "\<forall>e\<in>set ev4. \<not> isHttp e" using isHttp_not_sheet by blast
      then have nh: "\<forall>e\<in>set ?rec. \<not> isHttp e" by simp
      have st: "mandatoryColumns (rows ! 0) = Inr m
              \<and> mapRows ?c (parseFloatOk w) (tl rows) = Inr items
              \<and> fst (sendImportRequest w ?imp0 (url cfg) (apiKey cfg)) = Inr loc
              \<and> fst (waitForProcessing w (url cfg) loc (apiKey cfg) (timeout cfg)) = None
              \<and> fst (getImportResponse w (url cfg) loc (apiKey cfg)) = Inr imp
              \<and> ev4 = snd (reconcile w ?c (resultHeadings (rows ! 0)) rows
                             (ImportResponse.ImportItems imp))
              \<and> (\<forall>e\<in>set ev4. isSetSheetRow e)
              \<and> (?rec = ev4 \<or> ?rec = ev4 @ [SaveAs (outputPath cfg)])"
        using imported(2,4) saved(1,2,3) r4 by simp
      have "ev = ?H # (ev1 @ ev2 @ ev3) @ ?rec" using ev e' by simp
      with net nh st show ?thesis by blast
    qed
  qed
qed

theorem sheet_writes_after_success_witness:
  "fst (main sampleConfig
          (sampleWorld [sampleItem ''A1'' [(''eu'', ''8471.30''), (''no'', ''8471.30'')]])
          sampleRows) = Done
   \<and> (\<exists>net rec.
         snd (main sampleConfig
                (sampleWorld [sampleItem ''A1'' [(''eu'', ''8471.30''), (''no'', ''8471.30'')]])
                sampleRows)
           = SetSheetRow 1 (resultHeadings (sampleRows ! 0)) # net @ rec
         \<and> list_all (\<lambda>e. \<not> isSetSheetRow e) net \<and> list_all (\<lambda>e. \<not> isHttp e) rec
         \<and> SetSheetRow 2 [''A1'', ''laptop'', ''a portable computer'', ''EU, no'',
                           ''8471.30'', ''8471.30'', []] \<in> set rec)"
proof -
  let ?w = "sampleWorld [sampleItem ''A1'' [(''eu'', ''8471.30''), (''no'', ''8471.30'')]]"
  let ?row = "SetSheetRow 2 [''A1'', ''laptop'', ''a portable computer'', ''EU, no'',
                           ''8471.30'', ''8471.30'', []]"
  obtain out ev where run: "main sampleConfig ?w sampleRows = (out, ev)"
    by (cases "main sampleConfig ?w sampleRows")
  have d: "fst (main sampleConfig ?w sampleRows) = Done" by code_simp
  have m: "?row \<in> set (tl (snd (main sampleConfig ?w sampleRows)))" by code_simp
  from run m have mem: "?row \<in> set (tl ev)" by simp
  then have "ev \<noteq> []" by auto
  with sheet_writes_after_success[THEN mp, OF run] obtain net rec where
    x: "ev = SetSheetRow 1 (resultHeadings (sampleRows ! 0)) # net @ rec"
       "\<forall>e\<in>set net. \<not> isSetSheetRow e" "\<forall>e\<in>set rec. \<not> isHttp e"
    by blast
  from x(1) mem have "?row \<in> set net \<or> ?row \<in> set rec" by simp
  with x(2) have "?row \<in> set rec" by auto
  with x run d show ?thesis by (auto simp: list_all_iff)
qed

section \<open>C9: the row lookup reads the id cell of every scanned row without a bounds check\<close>

text \<open>
  Claim C9. \<^verbatim>\<open>getRowByItemID\<close> scans the rows it is given from the first one, which in
  \<^verbatim>\<open>main\<close> is the heading row, and reads \<^verbatim>\<open>row[idIndex]\<close> of each scanned row with
  no bounds check. The lookup panics with an index out of range exactly when it reaches a
  row with at most \<open>idIndex\<close> cells before it finds a match; when every row has more than
  \<open>idIndex\<close> cells it returns a result; a matching heading row is found at index 0; and
  the panic of the lookup is the panic of the reconciler.
\<close>

theorem getRowByItemID_bounds:
  "((getRowByItemID rows idIndex itemID = Inl IndexOutOfRange) =
      (\<exists>k<length rows. length (rows ! k) \<le> idIndex \<and>
         (\<forall>j<k. idIndex < length (rows ! j) \<and> rows ! j ! idIndex \<noteq> itemID)))
   \<and> ((\<forall>row\<in>set rows. idIndex < length row) \<longrightarrow>
         (\<exists>r. getRowByItemID rows idIndex itemID = Inr r))
   \<and> (idIndex < length heading \<longrightarrow>
         getRowByItemID (heading # rest) idIndex (heading ! idIndex) = Inr (Some (0, heading)))
   \<and> (getRowByItemID rows (iID c) (ImportItemResponse.ID item) = Inl p \<longrightarrow>
         reconcileItem w c headings rows item = (Some (Panic p), []))"
proof (intro conjI impI)
  show iff: "(getRowByItemID rows idIndex itemID = Inl IndexOutOfRange) =
      (\<exists>k<length rows. length (rows ! k) \<le> idIndex \<and>
         (\<forall>j<k. idIndex < length (rows ! j) \<and> rows ! j ! idIndex \<noteq> itemID))"
    unfolding getRowByItemID_def by (rule getRowByItemID_loop_panic_iff)
  show "\<exists>r. getRowByItemID rows idIndex itemID = Inr r"
    if all: "\<forall>row\<in>set rows. idIndex < length row"
  proof (cases "getRowByItemID rows idIndex itemID")
    case (Inl p)
    then have "p = IndexOutOfRange"
      unfolding getRowByItemID_def by (rule getRowByItemID_loop_panic_kind)
    with Inl iff obtain k where "k < length rows" "length (rows ! k) \<le> idIndex" by blast
    with all show ?thesis by (metis nth_mem not_less)
  next
    case (Inr r)
    then show ?thesis by blast
  qed
  show "getRowByItemID (heading # rest) idIndex (heading ! idIndex) = Inr (Some (0, heading))"
    if "idIndex < length heading"
    using that by (simp add: getRowByItemID_def)
  show "reconcileItem w c headings rows item = (Some (Panic p), [])"
    if "getRowByItemID rows (iID c) (ImportItemResponse.ID item) = Inl p"
    using that by (simp add: reconcileItem_def)
qed

theorem getRowByItemID_bounds_witness:
  "list_all (\<lambda>row. 0 < length row) [[''id'', ''name''], [''A1'', ''n1'']]
   \<and> (\<exists>r. getRowByItemID [[''id'', ''name''], [''A1'', ''n1'']] 0 ''A1'' = Inr r)
   \<and> getRowByItemID [[''name'', ''id''], [''n1'']] 1 ''A1'' = Inl IndexOutOfRange
   \<and> (\<exists>k<length [[''name'', ''id''], [''n1'']]. length ([[''name'', ''id''], [''n1'']] ! k) \<le> 1)
   \<and> getRowByItemID ([''id'', ''name''] # [[''A1'', ''n1'']]) 0 ([''id'', ''name''] ! 0)
       = Inr (Some (0, [''id'', ''name'']))
   \<and> reconcileItem (sampleWorld []) (allColumns sampleHeadings (0, 1, 2, 3))
         (resultHeadings sampleHeadings) [sampleHeadings, []] (sampleItem ''A1'' [])
       = (Some (Panic IndexOutOfRange), [])"
proof -
  have 1: "\<forall>row\<in>set [[''id'', ''name''], [''A1'', ''n1'']]. 0 < length row" by simp
  have 2: "getRowByItemID [[''name'', ''id''], [''n1'']] 1 ''A1'' = Inl IndexOutOfRange"
    by (simp add: getRowByItemID_def)
  from getRowByItemID_bounds[of "[[''id'', ''name''], [''A1'', ''n1'']]" 0 "''A1''"] 1
  have 3: "\<exists>r. getRowByItemID [[''id'', ''name''], [''A1'', ''n1'']] 0 ''A1'' = Inr r"
    by blast
  from getRowByItemID_bounds[of "[[''name'', ''id''], [''n1'']]" 1 "''A1''"] 2
  have 4: "\<exists>k<length [[''name'', ''id''], [''n1'']]. length ([[''name'', ''id''], [''n1'']] ! k) \<le> 1"
    by blast
  have h: "0 < length [''id'', ''name'']" by simp
  have 5: "getRowByItemID ([''id'', ''name''] # [[''A1'', ''n1'']]) 0 ([''id'', ''name''] ! 0)
       = Inr (Some (0, [''id'', ''name'']))"
    by (rule getRowByItemID_bounds[THEN conjunct2, THEN conjunct2, THEN conjunct1, THEN mp, OF h])
  have g: "getRowByItemID [sampleHeadings, []] (iID (allColumns sampleHeadings (0, 1, 2, 3)))
             (ImportItemResponse.ID (sampleItem ''A1'' [])) = Inl IndexOutOfRange"
    by code_simp
  have 6: "reconcileItem (sampleWorld []) (allColumns sampleHeadings (0, 1, 2, 3))
         (resultHeadings sampleHeadings) [sampleHeadings, []] (sampleItem ''A1'' [])
       = (Some (Panic IndexOutOfRange), [])"
    by (rule getRowByItemID_bounds[THEN conjunct2, THEN conjunct2, THEN conjunct2, THEN mp, OF g])
  from 1 2 3 4 5 6 show ?thesis by (simp add: list_all_iff)
qed

section \<open>C10: an empty or blank customs-territories cell is rejected\<close>

text \<open>
  Claim C10. A customs-territories cell that is empty or holds white space only makes
  \<^verbatim>\<open>prepareCustomsTerritories\<close> fail with the unsupported-territory error naming the
  empty string, and so the mapping of its row; hence a territory list that was prepared
  successfully is not empty, and every request item of a successful mapping carries a
  non-empty list.
\<close>

theorem empty_territories_rejected:
  "((\<forall>ch\<in>set cell. isSpace ch) \<longrightarrow>
       prepareCustomsTerritories cell = Inl (ErrUnsupportedTerritory []))
   \<and> ((\<forall>ch\<in>set (row ! iCustomsTerritories c). isSpace ch) \<and> iID c < length row
        \<and> iName c < length row \<and> iDescription c < length row
        \<and> iCustomsTerritories c < length row \<longrightarrow>
       mapRow c parseOk row = Inl (Fatal (FatalErr (ErrUnsupportedTerritory []))))
   \<and> (prepareCustomsTerritories cell = Inr ts \<longrightarrow> ts \<noteq> [])
   \<and> (mapRows c parseOk rs = Inr items \<longrightarrow>
        (\<forall>item\<in>set items. CustomsTerritories item \<noteq> []))"
proof (intro conjI impI)
  show "prepareCustomsTerritories cell = Inl (ErrUnsupportedTerritory [])"
    if "\<forall>ch\<in>set cell. isSpace ch"
    using that by (rule prepareCustomsTerritories_spaces)
  show "mapRow c parseOk row = Inl (Fatal (FatalErr (ErrUnsupportedTerritory [])))"
    if "(\<forall>ch\<in>set (row ! iCustomsTerritories c). isSpace ch) \<and> iID c < length row
        \<and> iName c < length row \<and> iDescription c < length row
        \<and> iCustomsTerritories c < length row"
    using that by (intro mapRow_territories_rejected prepareCustomsTerritories_spaces) auto
  show nonempty: "ts \<noteq> []" if "prepareCustomsTerritories cell = Inr ts" for cell ts
  proof -
    from that have "length ts = length (Split cell (CHR '',''))"
      by (rule prepareCustomsTerritories_Inr_length)
    then show ?thesis using Split_not_Nil[of cell "CHR '',''"] by auto
  qed
  show "\<forall>item\<in>set items. CustomsTerritories item \<noteq> []"
    if ok: "mapRows c parseOk rs = Inr items"
  proof
    fix item assume "item \<in> set items"
    with ok obtain r where "mapRow c parseOk r = Inr item"
      using mapRows_Inr_items by blast
    then have "prepareCustomsTerritories (r ! iCustomsTerritories c) = Inr (CustomsTerritories item)"
      using mapRow_Inr_territories by blast
    then show "CustomsTerritories item \<noteq> []" by (rule nonempty)
  qed
qed

theorem empty_territories_rejected_witness:
  "list_all isSpace ''  ''
   \<and> prepareCustomsTerritories ''  '' = Inl (ErrUnsupportedTerritory [])
   \<and> prepareCustomsTerritories ''EU, no'' = Inr [''eu'', ''no'']
   \<and> [''eu'', ''no''] \<noteq> ([] :: string list)
   \<and> mapRow (allColumns sampleHeadings (0, 1, 2, 3)) (\<lambda>s. True)
         [''A1'', ''laptop'', ''a portable computer'', ''  '']
       = Inl (Fatal (FatalErr (ErrUnsupportedTerritory [])))
   \<and> mapRows (allColumns sampleHeadings (0, 1, 2, 3)) (\<lambda>s. True)
         [[''A2'', ''car'', ''a passenger car'', ''no'']]
       = Inr [\<lparr> ImportItemRequest.ID = ''A2'', Name = ''car'',
                 Description = ''a passenger car'', CustomsTerritories = [''no''],
                 Category = None, Subcategory = None, CountryOfOrigin = None,
                 GrossMass = None, NetMass = None, WeightUnit = None, Model = None \<rparr>]
   \<and> [''no''] \<noteq> ([] :: string list)"
proof -
  let ?c = "allColumns sampleHeadings (0, 1, 2, 3)"
  let ?blank = "[''A1'', ''laptop'', ''a portable computer'', ''  '']"
  let ?item = "\<lparr> ImportItemRequest.ID = ''A2'', Name = ''car'',
                 Description = ''a passenger car'', CustomsTerritories = [''no''],
                 Category = None, Subcategory = None, CountryOfOrigin = None,
                 GrossMass = None, NetMass = None, WeightUnit = None, Model = None \<rparr>"
  have 1: "\<forall>ch\<in>set ''  ''. isSpace ch" by (simp add: isSpace_def)
  have 2: "prepareCustomsTerritories ''EU, no'' = Inr [''eu'', ''no'']" by code_simp
  from empty_territories_rejected[where cell = "''  ''"] 1
  have 3: "prepareCustomsTerritories ''  '' = Inl (ErrUnsupportedTerritory [])" by blast
  from empty_territories_rejected[where cell = "''EU, no''" and ts = "[''eu'', ''no'']"] 2
  have 4: "[''eu'', ''no''] \<noteq> ([] :: string list)" by blast
  have c: "iID ?c = 0" "iName ?c = 1" "iDescription ?c = 2" "iCustomsTerritories ?c = 3"
    by (simp_all add: allColumns_def)
  have h: "(\<forall>ch\<in>set (?blank ! iCustomsTerritories ?c). isSpace ch) \<and> iID ?c < length ?blank
        \<and> iName ?c < length ?blank \<and> iDescription ?c < length ?blank
        \<and> iCustomsTerritories ?c < length ?blank"
    unfolding c by (simp add: isSpace_def)
  have 5: "mapRow ?c (\<lambda>s. True) ?blank = Inl (Fatal (FatalErr (ErrUnsupportedTerritory [])))"
    by (rule empty_territories_rejected[THEN conjunct2, THEN conjunct1, THEN mp, OF h])
  have 6: "mapRows ?c (\<lambda>s. True) [[''A2'', ''car'', ''a passenger car'', ''no'']] = Inr [?item]"
    by code_simp
  from empty_territories_rejected[THEN conjunct2, THEN conjunct2, THEN conjunct2, THEN mp, OF 6]
  have "CustomsTerritories ?item \<noteq> []" by simp
  then have 7: "[''no''] \<noteq> ([] :: string list)" by simp
  from 1 2 3 4 5 6 7 show ?thesis by (simp add: list_all_iff)
qed

end
